theory Spec2Isabelle
  imports Main "HOL-Library.Sublist"
begin

section \<open>JavaScript string primitives used by the engine\<close>

text \<open>
  Strings are modelled as lists of characters, a character being a code unit below 256
  (Latin-1). The engine only relies on a handful of \<^verbatim>\<open>String.prototype\<close> methods; each
  is written out below. Of the white space and line terminators that \<^verbatim>\<open>trim()\<close> strips,
  seven are code units below 256: tab, line feed, vertical tab, form feed, carriage
  return, space and the no-break space U+00A0.
\<close>

definition isWhitespace :: "char \<Rightarrow> bool" where
  "isWhitespace c =
     (c \<in> set [CHR 0x09, CHR 0x0A, CHR 0x0B, CHR 0x0C, CHR 0x0D, CHR '' '', CHR 0xA0])"

definition trim :: "string \<Rightarrow> string" where
  "trim s = rev (dropWhile isWhitespace (rev (dropWhile isWhitespace s)))"

definition startsWith :: "string \<Rightarrow> string \<Rightarrow> bool" where
  "startsWith s p = (take (length p) s = p)"

definition endsWith :: "string \<Rightarrow> string \<Rightarrow> bool" where
  "endsWith s p = startsWith (rev s) (rev p)"

fun strIncludes :: "string \<Rightarrow> string \<Rightarrow> bool" where
  "strIncludes [] p = (p = [])"
| "strIncludes (c # cs) p = (startsWith (c # cs) p \<or> strIncludes cs p)"

text \<open>
  \<^verbatim>\<open>s.split(sep)\<close> for a non-empty separator: the pieces between the occurrences of
  \<open>sep\<close>, scanning from the left; the result always has at least one piece.
\<close>

fun splitFrom :: "string \<Rightarrow> string \<Rightarrow> string \<Rightarrow> string list" where
  "splitFrom sep acc [] = [rev acc]"
| "splitFrom sep acc (c # cs) =
     (if sep \<noteq> [] \<and> startsWith (c # cs) sep
      then rev acc # splitFrom sep [] (drop (length sep - 1) cs)
      else splitFrom sep (c # acc) cs)"

definition split :: "string \<Rightarrow> string \<Rightarrow> string list" where
  "split sep s = splitFrom sep [] s"

text \<open>\<^verbatim>\<open>s.replaceAll(a, b)\<close> for one-character strings \<open>a\<close> and \<open>b\<close>.\<close>

definition replaceAll :: "char \<Rightarrow> char \<Rightarrow> string \<Rightarrow> string" where
  "replaceAll a b s = map (\<lambda>c. if c = a then b else c) s"

text \<open>\<^verbatim>\<open>s.replace(pat, rep)\<close> for a string pattern: only the first occurrence is replaced.\<close>

fun replace :: "string \<Rightarrow> string \<Rightarrow> string \<Rightarrow> string" where
  "replace pat rep [] = (if pat = [] then rep else [])"
| "replace pat rep (c # cs) =
     (if startsWith (c # cs) pat then rep @ drop (length pat) (c # cs)
      else c # replace pat rep cs)"

text \<open>
  \<^verbatim>\<open>isNonEmptyString\<close>: the argument is a string and is not blank. A value that is
  not a string (\<^verbatim>\<open>undefined\<close>, \<^verbatim>\<open>null\<close>) is \<open>None\<close>.
\<close>

definition isNonEmptyString :: "string option \<Rightarrow> bool" where
  "isNonEmptyString str = (case str of None \<Rightarrow> False | Some s \<Rightarrow> length (trim s) > 0)"

definition isDigit :: "char \<Rightarrow> bool" where
  "isDigit c = (c \<in> set ''0123456789'')"

section \<open>Section numbering: \<^verbatim>\<open>parsePagePath\<close>\<close>

text \<open>
  The regular expression \<^verbatim>\<open>/(\d|zz)/\<close> is not anchored: it accepts a string that has a
  digit or the letters \<^verbatim>\<open>zz\<close> anywhere.
\<close>

definition sectionNumberTest :: "string \<Rightarrow> bool" where
  "sectionNumberTest s = (list_ex isDigit s \<or> strIncludes s ''zz'')"

text \<open>
  The result is the 3-tuple of the source: the success flag, the number part and the
  title part; \<^verbatim>\<open>[false]\<close> leaves the last two undefined.
\<close>

definition parsePagePath :: "string option \<Rightarrow> bool \<times> string option \<times> string option" where
  "parsePagePath path =
     (case path of
        None \<Rightarrow> (False, None, None)
      | Some p \<Rightarrow>
          (let splitPath = split ''/'' p;
               relativePath = last splitPath;
               splitPagePath = split ''%3A'' relativePath;
               numberPart = hd splitPagePath
           in if length splitPagePath > 1 \<and> sectionNumberTest numberPart
              then (True, Some numberPart,
                    Some (trim (replaceAll (CHR ''_'') (CHR '' '') (splitPagePath ! 1))))
              else (False, None, None)))"

section \<open>Destination path segment of the writer\<close>

text \<open>
  Lines 749 to 759 of \<^verbatim>\<open>saveToLibrary\<close>: the path segment of a page from its title and
  its section-number hint.
\<close>

definition newPagePath :: "string \<Rightarrow> string option \<Rightarrow> string" where
  "newPagePath title urlNumPrefix =
     (let trimTitle = trim title;
          newPagePath =
            (if isNonEmptyString urlNumPrefix
             then (let splitTitle = split '':'' trimTitle;
                       newPageURLTitle =
                         (if length splitTitle > 1 then trim (splitTitle ! 1) else trimTitle)
                   in the urlNumPrefix @ '': '' @ newPageURLTitle)
             else trimTitle)
      in replaceAll (CHR '' '') (CHR ''_'') newPagePath)"

section \<open>Pages\<close>

text \<open>
  The engine passes one kind of object through all of its stages (the \<^verbatim>\<open>LibrePage\<close> and
  \<^verbatim>\<open>LibreTranslatedPage\<close> of the source). The scalar fields are collected in the record
  \<open>meta\<close>; a field that an object may lack is an option. The field \<^verbatim>\<open>id\<close> is written
  \<open>id'\<close>. A page is \<^verbatim>\<open>null\<close> or an object with its fields, its \<^verbatim>\<open>contents\<close> and its
  \<^verbatim>\<open>subpages\<close>, either of which can be absent.
\<close>

record meta =
  lib :: string
  id' :: string
  url :: "string option"
  title :: string
  tags :: "string list option"
  path :: "string option"
  urlNumPrefix :: "string option"
  urlTitleExtract :: "string option"
  root :: "bool option"
  parent :: "string option"
  summary :: "string option"
  props :: "(string \<times> string) list option"

datatype page = Null | Page meta "string option" "page list option"

text \<open>
  Readers of a page object: \<^verbatim>\<open>page.root === true\<close>, \<^verbatim>\<open>page.parent\<close> and \<^verbatim>\<open>page.id\<close>.
\<close>

fun isRoot :: "page \<Rightarrow> bool" where
  "isRoot Null = False"
| "isRoot (Page m c sp) = (root m = Some True)"

fun parentOf :: "page \<Rightarrow> string option" where
  "parentOf Null = None"
| "parentOf (Page m c sp) = parent m"

fun idOf :: "page \<Rightarrow> string option" where
  "idOf Null = None"
| "idOf (Page m c sp) = Some (id' m)"

section \<open>The flattener: \<^verbatim>\<open>createFlatPageMetadataList\<close>\<close>

text \<open>
  The source works on the argument object itself: \<^verbatim>\<open>pageData\<close> is an alias of \<^verbatim>\<open>page\<close>,
  both \<^verbatim>\<open>delete\<close> statements act on it, and it is this object that is put in front of the
  result. The model returns the array together with the argument object as it is after
  the call. Reading \<^verbatim>\<open>subpages\<close> of \<^verbatim>\<open>null\<close> throws, which is \<open>None\<close>. The loop over the
  subpages is \<open>flattenSubpages\<close>, with \<^verbatim>\<open>pagesArr\<close> as its accumulator.
\<close>

fun createFlatPageMetadataList :: "page \<Rightarrow> (page list \<times> page) option"
and flattenSubpages :: "page list \<Rightarrow> page list \<Rightarrow> page list option" where
  "createFlatPageMetadataList Null = None"
| "createFlatPageMetadataList (Page m c sp) =
     (case (case sp of None \<Rightarrow> Some [] | Some kids \<Rightarrow> flattenSubpages kids []) of
        None \<Rightarrow> None
      | Some pagesArr \<Rightarrow>
          (let pageData = Page m None None in Some (pageData # pagesArr, pageData)))"
| "flattenSubpages [] pagesArr = Some pagesArr"
| "flattenSubpages (k # ks) pagesArr =
     (case createFlatPageMetadataList k of
        None \<Rightarrow> None
      | Some (sub, _) \<Rightarrow> flattenSubpages ks (pagesArr @ sub))"

section \<open>The reconstructor: \<^verbatim>\<open>createPageStructure\<close> and \<^verbatim>\<open>mergeInputStructure\<close>\<close>

text \<open>
  \<^verbatim>\<open>createPageStructure\<close> recurses through the flat list along the \<^verbatim>\<open>parent\<close> references,
  which are data: nothing in the source bounds the recursion. The model counts the depth
  down from a bound given as its first argument; \<open>None\<close> stands for a call that does not
  return a page (the bound is used up, or a property of \<^verbatim>\<open>null\<close> is read, which throws).
  \<open>attachLoop\<close> is the loop over \<^verbatim>\<open>pages\<close> with \<^verbatim>\<open>foundSubpages\<close> as its accumulator. The
  test \<^verbatim>\<open>!subpage.root\<close> holds for \<^verbatim>\<open>false\<close> and for a missing flag.
\<close>

fun createPageStructure :: "nat \<Rightarrow> page \<Rightarrow> page list \<Rightarrow> page option"
and attachLoop :: "nat \<Rightarrow> string \<Rightarrow> page list \<Rightarrow> page list \<Rightarrow> page list \<Rightarrow> page list option" where
  "createPageStructure 0 p pages = None"
| "createPageStructure (Suc n) Null pages = None"
| "createPageStructure (Suc n) (Page m c sp) pages =
     (case attachLoop n (id' m) pages pages [] of
        None \<Rightarrow> None
      | Some foundSubpages \<Rightarrow> Some (Page m c (Some foundSubpages)))"
| "attachLoop n currId [] pages foundSubpages = Some foundSubpages"
| "attachLoop n currId (Null # rest) pages foundSubpages = None"
| "attachLoop n currId (Page sm sc ssp # rest) pages foundSubpages =
     (if root sm \<noteq> Some True \<and> parent sm = Some currId
      then (case createPageStructure n (Page sm sc ssp) pages of
              None \<Rightarrow> None
            | Some s \<Rightarrow> attachLoop n currId rest pages (foundSubpages @ [s]))
      else attachLoop n currId rest pages foundSubpages)"

text \<open>
  The stored metadata record of a job: \<^verbatim>\<open>rootData\<close> as \<^verbatim>\<open>uploadLibreText\<close> writes it (without
  its time stamp) and as \<^verbatim>\<open>retrieveInputMetadata\<close> reads it back. The root's \<^verbatim>\<open>lib\<close> and \<^verbatim>\<open>id\<close>
  are \<open>sourceLib\<close> and \<open>sourceId\<close>. A field that the parsed record lacks is \<open>None\<close>.
\<close>

record inputMetadata =
  sourceLib :: "string option"
  sourceId :: "string option"
  pageCount :: "nat option"
  allPages :: "page list option"
  targetLib :: "string option"
  targetPath :: "string option"
  notifyAddrs :: "string list option"

text \<open>
  \<^verbatim>\<open>allPages.find(...)\<close> by \<^verbatim>\<open>lib\<close> and \<^verbatim>\<open>id\<close>: the first entry that matches. The outer
  \<open>None\<close> is the \<^verbatim>\<open>TypeError\<close> of reading \<^verbatim>\<open>lib\<close> of a \<^verbatim>\<open>null\<close> entry.
\<close>

fun findInput :: "meta \<Rightarrow> page list \<Rightarrow> page option option" where
  "findInput pm [] = Some None"
| "findInput pm (Null # rest) = None"
| "findInput pm (Page im ic isp # rest) =
     (if lib pm = lib im \<and> id' pm = id' im then Some (Some (Page im ic isp))
      else findInput pm rest)"

text \<open>
  The callback of \<^verbatim>\<open>translatedPages.map\<close>: the translated page with the seven structural
  fields of the matching entry, or \<^verbatim>\<open>null\<close> when no entry matches.
\<close>

fun mergeOne :: "page list \<Rightarrow> page \<Rightarrow> page option" where
  "mergeOne inputPages Null = None"
| "mergeOne inputPages (Page pm pc psp) =
     (case findInput pm inputPages of
        None \<Rightarrow> None
      | Some None \<Rightarrow> Some Null
      | Some (Some Null) \<Rightarrow> None
      | Some (Some (Page im ic isp)) \<Rightarrow>
          Some (Page (pm \<lparr> root := root im, parent := parent im, tags := tags im,
                           props := props im, path := path im,
                           urlNumPrefix := urlNumPrefix im,
                           urlTitleExtract := urlTitleExtract im \<rparr>) pc psp))"

fun mapMerge :: "page list \<Rightarrow> page list \<Rightarrow> page list option" where
  "mapMerge inputPages [] = Some []"
| "mapMerge inputPages (p # ps) =
     (case mergeOne inputPages p of
        None \<Rightarrow> None
      | Some r \<Rightarrow> (case mapMerge inputPages ps of None \<Rightarrow> None | Some rs \<Rightarrow> Some (r # rs)))"

text \<open>
  \<^verbatim>\<open>mergeInputStructure\<close>. The result \<open>Some Null\<close> is the \<^verbatim>\<open>null\<close> the source returns after
  logging an error. \<open>translatedPages\<close> is \<open>None\<close> when the argument is not an array.
\<close>

definition mergeInputStructure ::
  "nat \<Rightarrow> inputMetadata option \<Rightarrow> page list option \<Rightarrow> page option" where
  "mergeInputStructure depth inputMetadata translatedPages =
     (case inputMetadata of
        None \<Rightarrow> Some Null
      | Some md \<Rightarrow>
         (case allPages md of
            None \<Rightarrow> Some Null
          | Some inputPages \<Rightarrow>
             (case translatedPages of
                None \<Rightarrow> Some Null
              | Some pages \<Rightarrow>
                 (case mapMerge inputPages pages of
                    None \<Rightarrow> None
                  | Some merged \<Rightarrow>
                     (let pagesData = filter (\<lambda>page. page \<noteq> Null) merged
                      in case find isRoot pagesData of
                           None \<Rightarrow> Some Null
                         | Some rootPage \<Rightarrow> createPageStructure depth rootPage pagesData)))))"

section \<open>Vocabulary for stating properties of page trees\<close>

fun subpagesOf :: "page \<Rightarrow> page list" where
  "subpagesOf Null = []"
| "subpagesOf (Page m c sp) = (case sp of None \<Rightarrow> [] | Some ks \<Rightarrow> ks)"

fun nullFree :: "page \<Rightarrow> bool" where
  "nullFree Null = False"
| "nullFree (Page m c sp) = (case sp of None \<Rightarrow> True | Some ks \<Rightarrow> list_all nullFree ks)"

fun nodeCount :: "page \<Rightarrow> nat" where
  "nodeCount Null = 0"
| "nodeCount (Page m c sp) =
     1 + (case sp of None \<Rightarrow> 0 | Some ks \<Rightarrow> sum_list (map nodeCount ks))"

text \<open>The nodes of a tree in pre-order: a node, then the nodes of each subpage in turn.\<close>

fun preorder :: "page \<Rightarrow> page list" where
  "preorder Null = []"
| "preorder (Page m c sp) =
     Page m c sp # (case sp of None \<Rightarrow> [] | Some ks \<Rightarrow> concat (map preorder ks))"

text \<open>A node without its \<^verbatim>\<open>contents\<close> and \<^verbatim>\<open>subpages\<close>.\<close>

fun strip :: "page \<Rightarrow> page" where
  "strip Null = Null"
| "strip (Page m c sp) = Page m None None"

text \<open>
  The invariants of a page tree as discovery sets them (lines 274 to 277 of
  \<^verbatim>\<open>retrieveSubpages\<close>): the root has \<^verbatim>\<open>root: true\<close> and \<^verbatim>\<open>parent: null\<close>; every other
  node has \<^verbatim>\<open>root: false\<close> and carries the \<^verbatim>\<open>id\<close> of the node that owns it.
\<close>

fun ownedBy :: "string \<Rightarrow> page \<Rightarrow> bool" where
  "ownedBy owner Null = False"
| "ownedBy owner (Page m c sp) =
     (root m = Some False \<and> parent m = Some owner \<and>
      (case sp of None \<Rightarrow> True | Some ks \<Rightarrow> list_all (ownedBy (id' m)) ks))"

fun pageNodeTree :: "page \<Rightarrow> bool" where
  "pageNodeTree Null = False"
| "pageNodeTree (Page m c sp) =
     (root m = Some True \<and> parent m = None \<and>
      (case sp of None \<Rightarrow> True | Some ks \<Rightarrow> list_all (ownedBy (id' m)) ks))"

text \<open>
  Every entry of a list is a root entry or has an entry before it (or in \<open>seen\<close>) whose
  \<^verbatim>\<open>id\<close> is its \<^verbatim>\<open>parent\<close>.
\<close>

fun precededByOwner :: "page list \<Rightarrow> page list \<Rightarrow> bool" where
  "precededByOwner seen [] = True"
| "precededByOwner seen (e # es) =
     ((isRoot e \<or> list_ex (\<lambda>q. parentOf e = idOf q) seen) \<and> precededByOwner (seen @ [e]) es)"

section \<open>Content transformation: the rewrites of \<^verbatim>\<open>processPageContents\<close>\<close>

text \<open>
  The template-token expression \<^verbatim>\<open>/{{([A-Za-z.()]*)}}/gmi\<close> matches two opening braces, the
  longest run of letters, dots and parentheses, and two closing braces. The run cannot be
  cut short (the next character would be one of the run, not a brace), so the match at a
  position is decided by the longest run. The flags add nothing: the class has both cases
  and the expression has no anchor. A match gives the matched text and what follows it.
\<close>

definition isTemplateChar :: "char \<Rightarrow> bool" where
  "isTemplateChar c =
     (c \<in> set ''ABCDEFGHIJKLMNOPQRSTUVWXYZabcdefghijklmnopqrstuvwxyz.()'')"

definition matchTemplate :: "string \<Rightarrow> (string \<times> string) option" where
  "matchTemplate s =
     (case s of
        c1 # c2 # rest \<Rightarrow>
          if c1 = CHR ''{'' \<and> c2 = CHR ''{''
          then (case dropWhile isTemplateChar rest of
                  d1 # d2 # rest' \<Rightarrow>
                    if d1 = CHR ''}'' \<and> d2 = CHR ''}''
                    then Some (''{{'' @ takeWhile isTemplateChar rest @ ''}}'', rest')
                    else None
                | _ \<Rightarrow> None)
          else None
      | _ \<Rightarrow> None)"

text \<open>\<^verbatim>\<open>noTranslateDiv\<close>, the replacement of a template token.\<close>

definition noTranslateDiv :: "string \<Rightarrow> string" where
  \<open>noTranslateDiv match = ''<div translate="no">'' @ match @ ''</div>''\<close>

lemma matchTemplate_shorter:
  assumes "matchTemplate s = Some (tok, rest)"
  shows "length rest < length s"
proof -
  obtain c1 c2 r d1 d2 where s: "s = c1 # c2 # r" and d: "dropWhile isTemplateChar r = d1 # d2 # rest"
    using assms by (auto simp: matchTemplate_def split: list.splits if_splits)
  have "length (dropWhile isTemplateChar r) \<le> length r"
    by (rule length_dropWhile_le)
  then show ?thesis
    using s d by simp
qed

text \<open>
  \<^verbatim>\<open>contents.replaceAll(dekiRegex, noTranslateDiv)\<close>: the scan goes from left to right; a
  match is replaced and the scan goes on behind it, any other character is copied.
  \<open>countTemplates\<close> counts the matches of the same scan.
\<close>

function dekiReplace :: "string \<Rightarrow> string" where
  "dekiReplace [] = []"
| "dekiReplace (c # cs) =
     (case matchTemplate (c # cs) of
        Some (tok, rest) \<Rightarrow> noTranslateDiv tok @ dekiReplace rest
      | None \<Rightarrow> c # dekiReplace cs)"
  by pat_completeness auto
termination
  by (relation "measure length") (auto dest: matchTemplate_shorter)

function countTemplates :: "string \<Rightarrow> nat" where
  "countTemplates [] = 0"
| "countTemplates (c # cs) =
     (case matchTemplate (c # cs) of
        Some (tok, rest) \<Rightarrow> Suc (countTemplates rest)
      | None \<Rightarrow> countTemplates cs)"
  by pat_completeness auto
termination
  by (relation "measure length") (auto dest: matchTemplate_shorter)

declare dekiReplace.simps(2) [simp del] countTemplates.simps(2) [simp del]

text \<open>
  The math expressions \<^verbatim>\<open>/\\\(.*?(?<!\\\\)\\\)/gmi\<close> and \<^verbatim>\<open>/\\\[.*?(?<!\\\\)\\\]/gmi\<close>: a
  backslash and the opening bracket, then the shortest run of characters other than line
  terminators up to a backslash and the closing bracket that do not have two backslashes
  right before them. \<open>findMathClose\<close> looks for that closing pair; it carries the two
  characters before the position it looks at.
\<close>

definition isLineTerminator :: "char \<Rightarrow> bool" where
  "isLineTerminator c = (c = CHR 0x0A \<or> c = CHR 0x0D)"

fun findMathClose :: "char \<Rightarrow> char \<Rightarrow> char \<Rightarrow> string \<Rightarrow> string \<Rightarrow> (string \<times> string) option" where
  "findMathClose cl p2 p1 acc (x # y # r) =
     (if x = CHR 0x5C \<and> y = cl \<and> \<not> (p2 = CHR 0x5C \<and> p1 = CHR 0x5C)
      then Some (rev acc @ [x, y], r)
      else if isLineTerminator x then None
      else findMathClose cl p1 x (x # acc) (y # r))"
| "findMathClose cl p2 p1 acc r = None"

definition matchMath :: "char \<Rightarrow> char \<Rightarrow> string \<Rightarrow> (string \<times> string) option" where
  "matchMath opn cl s =
     (case s of
        a # b # r \<Rightarrow>
          if a = CHR 0x5C \<and> b = opn
          then (case findMathClose cl a b [] r of
                  Some (body, rest) \<Rightarrow> Some (a # b # body, rest)
                | None \<Rightarrow> None)
          else None
      | _ \<Rightarrow> None)"

lemma findMathClose_shorter:
  "findMathClose cl p2 p1 acc s = Some (body, rest) \<Longrightarrow> length rest < length s"
  by (induction cl p2 p1 acc s rule: findMathClose.induct) (auto split: if_splits)

lemma matchMath_shorter: "matchMath opn cl s = Some (tok, rest) \<Longrightarrow> length rest < length s"
  by (auto simp: matchMath_def split: list.splits if_splits option.splits
      dest!: findMathClose_shorter)

definition noTranslateSpan :: "string \<Rightarrow> string" where
  \<open>noTranslateSpan match = ''<span translate="no">'' @ match @ ''</span>''\<close>

function mathReplace :: "char \<Rightarrow> char \<Rightarrow> string \<Rightarrow> string" where
  "mathReplace opn cl [] = []"
| "mathReplace opn cl (c # cs) =
     (case matchMath opn cl (c # cs) of
        Some (tok, rest) \<Rightarrow> noTranslateSpan tok @ mathReplace opn cl rest
      | None \<Rightarrow> c # mathReplace opn cl cs)"
  by pat_completeness auto
termination
  by (relation "measure (\<lambda>(opn, cl, s). length s)") (auto dest: matchMath_shorter)

section \<open>Stage A: effects and their record\<close>

text \<open>
  The engine talks to a queue, a parameter store, the source library, object storage and
  the translation service. The answers of these services are the \<open>world\<close>; a function that
  calls a service returns its result together with the list of the requests it made, in
  the order of a run that handles one subpage after the other (the source starts the
  requests of sibling subtrees concurrently; the properties below speak about which
  requests occur). A service call that throws answers \<open>None\<close>. Request signing
  (\<^verbatim>\<open>generateAPIRequestHeaders\<close>) and the pauses (\<^verbatim>\<open>snooze\<close>) are left out.
\<close>

datatype bucket = InputBucket | OutputBucket

datatype s3Object = HtmlObject string | MetadataObject inputMetadata

text \<open>
  A read from object storage is recorded with the function that issued it: the job details
  file (\<^verbatim>\<open>retrieveTranslationJobDetails\<close>), the metadata record (\<^verbatim>\<open>retrieveInputMetadata\<close>) or a
  translated file (\<^verbatim>\<open>retrieveAndProcessTranslatedContent\<close>).
\<close>

datatype s3Purpose = JobDetailsFile | MetadataRecord | TranslatedFile

datatype event =
    QueueDelete
  | SsmGet
  | PageInfoGet string string
  | SubpagesGet string string
  | ContentGet string string
  | PropertiesGet string string
  | S3Put bucket string s3Object
  | TranslateStart string string
  | DescribeJob string
  | S3Get s3Purpose string
  | SsmGetFor "string option"
  | SendEmail "string list"

datatype outcome = Returned bool | Threw

datatype 'a result = Throws | ReturnsNull | Returns 'a

section \<open>Stage A: discovery\<close>

text \<open>
  \<^verbatim>\<open>processTags\<close> reads \<^verbatim>\<open>tagsObj.tag\<close>: an array of tag objects, one tag object, or nothing;
  a tag counts when its \<^verbatim>\<open>@value\<close> is a string.
\<close>

datatype tagsField = TagArray "string option list" | TagSingle "string option" | TagAbsent

fun processTags :: "tagsField option \<Rightarrow> string list" where
  "processTags None = []"
| "processTags (Some (TagArray ts)) = List.map_filter (\<lambda>t. t) ts"
| "processTags (Some (TagSingle t)) = (case t of None \<Rightarrow> [] | Some v \<Rightarrow> [v])"
| "processTags (Some TagAbsent) = []"

text \<open>
  What the library answers to one call of \<^verbatim>\<open>retrieveSubpages\<close>: the page information (\<open>None\<close>
  when the request fails), the subpage listing (\<open>None\<close> when that request fails) and, for
  every listed subpage, the library and path that \<^verbatim>\<open>parseURL\<close> reads from its address
  together with the answers to the call for that subpage. The answers form a finite tree,
  as the pages of a library do.
\<close>

record pageInfo =
  infoId :: string
  infoUri :: "string option"
  infoTitle :: string
  infoTags :: "tagsField option"

datatype remote = Remote "pageInfo option" "((string \<times> string) \<times> remote) list option"

text \<open>The test \<^verbatim>\<open>if (parent)\<close>: \<^verbatim>\<open>null\<close> and the empty string are falsy.\<close>

definition truthy :: "string option \<Rightarrow> bool" where
  "truthy v = (case v of None \<Rightarrow> False | Some s \<Rightarrow> s \<noteq> [])"

text \<open>
  \<^verbatim>\<open>retrieveSubpages\<close>. Every failure inside the \<^verbatim>\<open>try\<close> block, the error thrown for a root
  that is not a cover page included, ends in \<^verbatim>\<open>return null\<close>. \<open>retrieveEach\<close> collects the calls
  for the listed subpages (\<^verbatim>\<open>Promise.all\<close>), a failed call leaving \<^verbatim>\<open>null\<close> in the array.
\<close>

fun retrieveSubpages :: "string \<Rightarrow> string \<Rightarrow> string option \<Rightarrow> remote \<Rightarrow> page \<times> event list"
and retrieveEach :: "string \<Rightarrow> ((string \<times> string) \<times> remote) list \<Rightarrow> page list \<times> event list" where
  "retrieveSubpages lib' path' parent' (Remote info subs) =
     (case info of
        None \<Rightarrow> (Null, [PageInfoGet lib' path'])
      | Some pageInfo \<Rightarrow>
         (case subs of
            None \<Rightarrow> (Null, [PageInfoGet lib' path', SubpagesGet lib' (infoId pageInfo)])
          | Some listing \<Rightarrow>
             (let (foundSubpages, subEvents) = retrieveEach (infoId pageInfo) listing;
                  events = [PageInfoGet lib' path', SubpagesGet lib' (infoId pageInfo)] @ subEvents;
                  (couldParse, sectionNum, sectionTitle) = parsePagePath (Some path');
                  infoObj = \<lparr> lib = lib', id' = infoId pageInfo, url = infoUri pageInfo,
                    title = infoTitle pageInfo, tags = Some (processTags (infoTags pageInfo)),
                    path = Some path',
                    urlNumPrefix = (if couldParse then sectionNum else None),
                    urlTitleExtract = (if couldParse then sectionTitle else None),
                    root = None, parent = None, summary = None, props = None \<rparr>
              in if truthy parent'
                 then (Page (infoObj \<lparr> root := Some False, parent := parent' \<rparr>) None
                         (Some foundSubpages), events)
                 else if ''coverpage:yes'' \<in> set (processTags (infoTags pageInfo))
                 then (Page (infoObj \<lparr> root := Some True, parent := None \<rparr>) None
                         (Some foundSubpages), events)
                 else (Null, events))))"
| "retrieveEach parentId [] = ([], [])"
| "retrieveEach parentId (((subLib, subPath), r) # rest) =
     (let (p, ev) = retrieveSubpages subLib subPath (Some parentId) r;
          (ps, evs) = retrieveEach parentId rest
      in (p # ps, ev @ evs))"

section \<open>Stage A: fetching, transforming, exporting, submitting\<close>

record reqParams =
  reqLib :: string
  reqPath :: string
  reqTargetLib :: "string option"
  reqTargetPath :: "string option"
  reqLanguage :: "string option"

record ssmResponse =
  ssmStatus :: nat
  ssmParameters :: "(string option \<times> string) list option"

text \<open>
  A page property of the library's answer: its \<^verbatim>\<open>@name\<close>, and its \<^verbatim>\<open>contents\<close> when it has
  them, given by their \<^verbatim>\<open>#text\<close>. A name or text that is not a string is \<open>None\<close>. An entry
  of the answer that is \<^verbatim>\<open>null\<close> is \<open>None\<close>.
\<close>

record property =
  atName :: "string option"
  contentsText :: "string option option"

record world =
  eventBody :: "reqParams option"
  queueDeleteStatus :: "nat option"
  ssm :: "ssmResponse option"
  site :: remote
  pageContent :: "string \<Rightarrow> string \<Rightarrow> string option"
  pageProperties :: "string \<Rightarrow> string \<Rightarrow> property option list option"
  s3PutStatus :: "bucket \<Rightarrow> string \<Rightarrow> nat option"
  translateStatus :: "nat option"

definition deleteQueueMessage :: "world \<Rightarrow> bool option \<times> event list" where
  "deleteQueueMessage w =
     (case queueDeleteStatus w of
        None \<Rightarrow> (None, [QueueDelete])
      | Some status \<Rightarrow> (Some (status = 200), [QueueDelete]))"

definition retrieveLibraryParameters :: "world \<Rightarrow> string \<Rightarrow> bool \<times> event list" where
  "retrieveLibraryParameters w lib' =
     (case ssm w of
        None \<Rightarrow> (False, [SsmGet])
      | Some keysResponse \<Rightarrow>
          if ssmStatus keysResponse \<noteq> 200 then (False, [SsmGet])
          else (case ssmParameters keysResponse of
                  None \<Rightarrow> (False, [SsmGet])
                | Some Parameters \<Rightarrow>
                    (let named = (\<lambda>suffix param. case fst param of
                                    None \<Rightarrow> False
                                  | Some name \<Rightarrow> strIncludes name (lib' @ suffix));
                         libraryKey = find (named ''/key'') Parameters;
                         librarySec = find (named ''/secret'') Parameters
                     in (libraryKey \<noteq> None \<and> librarySec \<noteq> None, [SsmGet]))))"

text \<open>
  \<^verbatim>\<open>getPageProperties\<close>. The loop over the answer calls \<^verbatim>\<open>addProperty\<close> on each entry,
  which keeps the properties with a non-blank name and value; on an entry that is \<^verbatim>\<open>null\<close> or
  has no \<^verbatim>\<open>contents\<close> it throws. \<open>addProperties\<close> returns the array as the loop leaves it,
  and whether the loop came to its end. After a loop that came to its end the
  edit-tracking properties are filtered out; the \<^verbatim>\<open>catch\<close> block skips the filter, so that
  the properties collected before the throw are returned as they are. A failed request
  gives no property.
\<close>

fun addProperties ::
  "(string \<times> string) list \<Rightarrow> property option list \<Rightarrow> (string \<times> string) list \<times> bool" where
  "addProperties arr [] = (arr, True)"
| "addProperties arr (currProp # rest) =
     (case currProp of
        None \<Rightarrow> (arr, False)
      | Some prop \<Rightarrow>
          (case contentsText prop of
             None \<Rightarrow> (arr, False)
           | Some propVal \<Rightarrow>
               if isNonEmptyString (atName prop) \<and> isNonEmptyString propVal
               then addProperties (arr @ [(the (atName prop), the propVal)]) rest
               else addProperties arr rest))"

definition getPageProperties :: "world \<Rightarrow> meta \<Rightarrow> (string \<times> string) list \<times> event list" where
  "getPageProperties w m =
     (let foundProps =
            (case pageProperties w (lib m) (id' m) of
               None \<Rightarrow> []
             | Some pageProps \<Rightarrow>
                 (case addProperties [] pageProps of
                    (arr, False) \<Rightarrow> arr
                  | (arr, True) \<Rightarrow> filter (\<lambda>prop. \<not> strIncludes (fst prop) ''editedby'') arr))
      in (foundProps, [PropertiesGet (lib m) (id' m)]))"

text \<open>\<^verbatim>\<open>pageProps.splice(summaryIdx, 1)\<close>: the list without its first overview property.\<close>

fun spliceFirst :: "(string \<times> string \<Rightarrow> bool) \<Rightarrow> (string \<times> string) list \<Rightarrow> (string \<times> string) list" where
  "spliceFirst P [] = []"
| "spliceFirst P (x # xs) = (if P x then xs else x # spliceFirst P xs)"

text \<open>
  \<^verbatim>\<open>getSubpageContents\<close> fills in \<^verbatim>\<open>contents\<close>, \<^verbatim>\<open>summary\<close> and \<^verbatim>\<open>props\<close>. On \<^verbatim>\<open>null\<close> it throws
  before any request.
\<close>

fun getSubpageContents :: "world \<Rightarrow> page \<Rightarrow> page option \<times> event list"
and getEachContents :: "world \<Rightarrow> page list \<Rightarrow> page list option \<times> event list" where
  "getSubpageContents w Null = (None, [])"
| "getSubpageContents w (Page m c sp) =
     (let (pageProps, propEvents) = getPageProperties w m;
          isOverview = (\<lambda>prop. fst prop = ''mindtouch.page#overview'');
          m' = (case find isOverview pageProps of
                  None \<Rightarrow> m \<lparr> props := Some pageProps \<rparr>
                | Some prop \<Rightarrow> m \<lparr> summary := Some (snd prop),
                                     props := Some (spliceFirst isOverview pageProps) \<rparr>);
          events = ContentGet (lib m) (id' m) # propEvents
      in case sp of
           None \<Rightarrow> (Some (Page m' (pageContent w (lib m) (id' m)) None), events)
         | Some subs \<Rightarrow>
             (case getEachContents w subs of
                (None, subEvents) \<Rightarrow> (None, events @ subEvents)
              | (Some subs', subEvents) \<Rightarrow>
                  (Some (Page m' (pageContent w (lib m) (id' m)) (Some subs')),
                   events @ subEvents)))"
| "getEachContents w [] = (Some [], [])"
| "getEachContents w (p # ps) =
     (case getSubpageContents w p of
        (None, ev) \<Rightarrow> (None, ev)
      | (Some p', ev) \<Rightarrow>
          (case getEachContents w ps of
             (None, evs) \<Rightarrow> (None, ev @ evs)
           | (Some ps', evs) \<Rightarrow> (Some (p' # ps'), ev @ evs)))"

definition lineFeed :: string where
  "lineFeed = [CHR 0x0A]"

definition spaces :: "nat \<Rightarrow> string" where
  "spaces n = replicate n (CHR '' '')"

text \<open>The template literal of lines 425 to 435, with its line breaks and indentation.\<close>

definition provenanceBlock :: "meta \<Rightarrow> string \<Rightarrow> string" where
  \<open>provenanceBlock m contents =
     lineFeed @ spaces 8 @ ''<span'' @
     lineFeed @ spaces 10 @ ''data-libre-pagetitle="true"'' @
     lineFeed @ spaces 10 @ ''data-libre-lib="'' @ lib m @ ''"'' @
     lineFeed @ spaces 10 @ ''data-libre-pageid="'' @ id' m @ ''"'' @
     lineFeed @ spaces 8 @ ''>'' @
     lineFeed @ spaces 10 @ title m @
     lineFeed @ spaces 8 @ ''</span>'' @
     lineFeed @ spaces 8 @
       (case summary m of
          Some s \<Rightarrow> ''<p data-libre-pagesummary="true">'' @ s @ ''</p>''
        | None \<Rightarrow> []) @
     lineFeed @ spaces 8 @ contents @
     lineFeed @ spaces 6\<close>

text \<open>The three rewrites, in the order of the source.\<close>

definition transformContents :: "meta \<Rightarrow> string \<Rightarrow> string" where
  "transformContents m contents =
     mathReplace (CHR ''['') (CHR '']'')
       (mathReplace (CHR ''('') (CHR '')'')
          (dekiReplace (provenanceBlock m contents)))"

fun processPageContents :: "page \<Rightarrow> page option"
and processEachContents :: "page list \<Rightarrow> page list option" where
  "processPageContents Null = None"
| "processPageContents (Page m c sp) =
     (let contents = (case c of None \<Rightarrow> None | Some s \<Rightarrow> Some (transformContents m s))
      in case sp of
           None \<Rightarrow> Some (Page m contents None)
         | Some subs \<Rightarrow>
             (case processEachContents subs of
                None \<Rightarrow> None
              | Some subs' \<Rightarrow> Some (Page m contents (Some subs'))))"
| "processEachContents [] = Some []"
| "processEachContents (p # ps) =
     (case processPageContents p of
        None \<Rightarrow> None
      | Some p' \<Rightarrow>
          (case processEachContents ps of None \<Rightarrow> None | Some ps' \<Rightarrow> Some (p' # ps')))"

text \<open>
  \<^verbatim>\<open>createUploadCommands\<close>: the key and the body of one \<^verbatim>\<open>PutObjectCommand\<close> per node. It
  throws on \<^verbatim>\<open>null\<close>, on a non-root page without a directory, and on a page whose
  \<^verbatim>\<open>contents\<close> is not a string (\<^verbatim>\<open>Buffer.from\<close>).
\<close>

fun createUploadCommands :: "page \<Rightarrow> string option \<Rightarrow> (string \<times> string) list option"
and uploadCommandsEach :: "page list \<Rightarrow> string \<Rightarrow> (string \<times> string) list \<Rightarrow> (string \<times> string) list option" where
  "createUploadCommands Null directory = None"
| "createUploadCommands (Page m c sp) directory =
     (case (if root m = Some True then Some (lib m @ ''-'' @ id' m) else directory) of
        None \<Rightarrow> None
      | Some dirRoot \<Rightarrow>
          (case c of
             None \<Rightarrow> None
           | Some contents \<Rightarrow>
               (let commands = [(dirRoot @ ''/'' @ lib m @ ''-'' @ id' m @ ''.html'', contents)]
                in case sp of
                     None \<Rightarrow> Some commands
                   | Some subs \<Rightarrow> uploadCommandsEach subs dirRoot commands)))"
| "uploadCommandsEach [] dirRoot commands = Some commands"
| "uploadCommandsEach (p # ps) dirRoot commands =
     (case createUploadCommands p (Some dirRoot) of
        None \<Rightarrow> None
      | Some sub \<Rightarrow> uploadCommandsEach ps dirRoot (commands @ sub))"

text \<open>
  \<^verbatim>\<open>uploadLibreText\<close>: one write per node, all started together; if none failed, the flat
  metadata record is written as well. The status of that last write is not looked at.
\<close>

definition uploadLibreText ::
  "world \<Rightarrow> page \<Rightarrow> string option \<Rightarrow> string option \<Rightarrow> bool \<times> event list" where
  "uploadLibreText w page targetLib' targetPath' =
     (case page of
        Null \<Rightarrow> (False, [])
      | Page m c sp \<Rightarrow>
          (case createUploadCommands page None of
             None \<Rightarrow> (False, [])
           | Some uploadCommands \<Rightarrow>
               (let uploadResponses =
                      map (\<lambda>comm. s3PutStatus w InputBucket (fst comm)) uploadCommands;
                    uploadEvents =
                      map (\<lambda>comm. S3Put InputBucket (fst comm) (HtmlObject (snd comm)))
                        uploadCommands
                in if None \<in> set uploadResponses then (False, uploadEvents)
                   else (let failCount = length (filter (\<lambda>r. r \<noteq> Some 200) uploadResponses)
                         in if failCount = 0
                            then (let rootID = lib m @ ''-'' @ id' m;
                                      metaKey = rootID @ ''/'' @ rootID @ ''.metadata.json''
                                  in case createFlatPageMetadataList page of
                                       None \<Rightarrow> (False, uploadEvents)
                                     | Some (flatMetadata, pageAfter) \<Rightarrow>
                                         (let rootData = \<lparr> sourceLib = Some (lib m),
                                                sourceId = Some (id' m),
                                                pageCount = Some (length flatMetadata),
                                                allPages = Some flatMetadata,
                                                targetLib = targetLib',
                                                targetPath = targetPath',
                                                notifyAddrs = None \<rparr>
                                          in (s3PutStatus w OutputBucket metaKey \<noteq> None,
                                              uploadEvents
                                              @ [S3Put OutputBucket metaKey
                                                   (MetadataObject rootData)])))
                            else (False, uploadEvents)))))"

definition initiateTranslationJob :: "world \<Rightarrow> string \<Rightarrow> string option \<Rightarrow> bool \<times> event list" where
  "initiateTranslationJob w coverID outLangCode =
     (case outLangCode of
        None \<Rightarrow> (False, [])
      | Some code \<Rightarrow>
          if length code < 2 then (False, [])
          else (translateStatus w = Some 200, [TranslateStart coverID code]))"

text \<open>
  \<^verbatim>\<open>startTranslation\<close>. The result of \<^verbatim>\<open>uploadLibreText\<close> is awaited and dropped (line 712).
\<close>

definition startTranslation :: "world \<Rightarrow> outcome \<times> event list" where
  "startTranslation w =
     (case eventBody w of
        None \<Rightarrow> (Threw, [])
      | Some reqParams \<Rightarrow>
         (case deleteQueueMessage w of
            (None, ev1) \<Rightarrow> (Threw, ev1)
          | (Some msgDeleted, ev1) \<Rightarrow>
             if \<not> msgDeleted then (Returned False, ev1)
             else
              (case retrieveLibraryParameters w (reqLib reqParams) of
                 (paramsRetrieve, ev2) \<Rightarrow>
                  if \<not> paramsRetrieve then (Returned False, ev1 @ ev2)
                  else
                   (case retrieveSubpages (reqLib reqParams) (reqPath reqParams) None (site w) of
                      (Null, ev3) \<Rightarrow> (Returned False, ev1 @ ev2 @ ev3)
                    | (Page dm dc dsp, ev3) \<Rightarrow>
                       (case getSubpageContents w (Page dm dc dsp) of
                          (None, ev4) \<Rightarrow> (Threw, ev1 @ ev2 @ ev3 @ ev4)
                        | (Some fetched, ev4) \<Rightarrow>
                           (case processPageContents fetched of
                              None \<Rightarrow> (Threw, ev1 @ ev2 @ ev3 @ ev4)
                            | Some Null \<Rightarrow> (Threw, ev1 @ ev2 @ ev3 @ ev4)
                            | Some (Page m c sp) \<Rightarrow>
                               (case uploadLibreText w (Page m c sp) (reqTargetLib reqParams)
                                       (reqTargetPath reqParams) of
                                  (uploaded, ev5) \<Rightarrow>
                                   (case initiateTranslationJob w (lib m @ ''-'' @ id' m)
                                           (reqLanguage reqParams) of
                                      (trnsJob, ev6) \<Rightarrow>
                                       (Returned True, ev1 @ ev2 @ ev3 @ ev4 @ ev5 @ ev6)))))))))"

section \<open>Stage B: correlation\<close>

text \<open>
  The answers of the services that stage B talks to. Parsing is left to the world: what
  \<^verbatim>\<open>JSON.parse\<close> makes of the job details file and of the metadata record, and what the
  \<^verbatim>\<open>cheerio\<close> queries extract from a translated file (\<^verbatim>\<open>null\<close> when the provenance marker has no
  \<^verbatim>\<open>lib\<close> or \<^verbatim>\<open>id\<close>). The error counts of the details file are given as \<^verbatim>\<open>parseInt\<close> reads them,
  \<open>None\<close> for \<^verbatim>\<open>NaN\<close>.
\<close>

datatype s3GetResult = GetThrows | GetFailed | GetBody string

record jobDetailsFile =
  detailsList :: "string list option"
  inputDataPrefix :: "string option"
  outputDataPrefix :: string
  documentCountWithCustomerError :: "int option"
  documentCountWithServerError :: "int option"

record jobMetadata =
  jobLib :: string
  jobId :: string
  jobDetails :: "string list"
  jobOutputDataPrefix :: string
  clientErrors :: int
  serverErrors :: int

record describeResponse =
  describeStatus :: nat
  outputFolder :: string
  targetLanguageCodes :: "string list"

record worldB =
  eventJobId :: "string option"
  describeJob :: "string \<Rightarrow> describeResponse option"
  outputBucket :: "string option"
  s3Object :: "string \<Rightarrow> s3GetResult"
  parseJobDetails :: "string \<Rightarrow> jobDetailsFile option"
  parseMetadata :: "string \<Rightarrow> inputMetadata option"
  parseTranslated :: "string \<Rightarrow> page"
  ssmFor :: "string option \<Rightarrow> ssmResponse option"
  emailStatus :: "nat option"

fun joinWith :: "string \<Rightarrow> string list \<Rightarrow> string" where
  "joinWith sep [] = []"
| "joinWith sep [x] = x"
| "joinWith sep (x # y # ys) = x @ sep @ joinWith sep (y # ys)"

definition getTranslationDetailsURI :: "worldB \<Rightarrow> string \<Rightarrow> string option \<times> event list" where
  "getTranslationDetailsURI w jobID =
     (case describeJob w jobID of
        None \<Rightarrow> (None, [DescribeJob jobID])
      | Some details \<Rightarrow>
          if describeStatus details \<noteq> 200 then (None, [DescribeJob jobID])
          else (Some (outputFolder details @ ''details/''
                      @ joinWith '','' (targetLanguageCodes details)
                      @ ''.auxiliary-translation-details.json''),
                [DescribeJob jobID]))"

definition getFileContents ::
  "worldB \<Rightarrow> s3Purpose \<Rightarrow> string \<Rightarrow> string result \<times> event list" where
  "getFileContents w purpose key =
     (case outputBucket w of
        None \<Rightarrow> (ReturnsNull, [])
      | Some bucket \<Rightarrow>
          if bucket = [] \<or> key = [] then (ReturnsNull, [])
          else (let formattedKey = replace (bucket @ ''/'') [] (replace ''s3://'' [] key)
                in case s3Object w formattedKey of
                     GetThrows \<Rightarrow> (Throws, [S3Get purpose formattedKey])
                   | GetFailed \<Rightarrow> (ReturnsNull, [S3Get purpose formattedKey])
                   | GetBody fileContents \<Rightarrow> (Returns fileContents, [S3Get purpose formattedKey])))"

text \<open>
  Lines 324 to 334 of \<^verbatim>\<open>retrieveTranslationJobDetails\<close>: the cover identifier is the second
  segment of the input path, and the library and page id are the first two pieces of it
  between hyphens; both must be non-blank strings.
\<close>

definition coverSegment :: "string \<Rightarrow> string option" where
  "coverSegment inputDataPrefix' =
     (let inputPath = replace ''s3://'' [] inputDataPrefix';
          parts = split ''/'' inputPath
      in if length parts > 1 then Some (parts ! 1) else None)"

definition decodeCoverID :: "string \<Rightarrow> (string \<times> string) option" where
  "decodeCoverID inputDataPrefix' =
     (let inputCoverID = coverSegment inputDataPrefix'
      in if \<not> isNonEmptyString inputCoverID then None
         else (let idParts = split ''-'' (the inputCoverID);
                   lib' = Some (hd idParts);
                   id'' = (if length idParts > 1 then Some (idParts ! 1) else None)
               in if \<not> isNonEmptyString lib' \<or> \<not> isNonEmptyString id'' then None
                  else Some (the lib', the id'')))"

definition retrieveTranslationJobDetails ::
  "worldB \<Rightarrow> string option \<Rightarrow> jobMetadata result \<times> event list" where
  "retrieveTranslationJobDetails w filename =
     (if \<not> isNonEmptyString filename then (ReturnsNull, [])
      else
       (case getFileContents w JobDetailsFile (the filename) of
          (Throws, ev) \<Rightarrow> (Throws, ev)
        | (ReturnsNull, ev) \<Rightarrow> (ReturnsNull, ev)
        | (Returns detailsFileContents, ev) \<Rightarrow>
           (case parseJobDetails w detailsFileContents of
              None \<Rightarrow> (ReturnsNull, ev)
            | Some detailsFile \<Rightarrow>
               (case detailsList detailsFile of
                  None \<Rightarrow> (ReturnsNull, ev)
                | Some details \<Rightarrow>
                   (case inputDataPrefix detailsFile of
                      None \<Rightarrow> (Throws, ev)
                    | Some dataPrefix \<Rightarrow>
                       (case decodeCoverID dataPrefix of
                          None \<Rightarrow> (ReturnsNull, ev)
                        | Some (lib', id'') \<Rightarrow>
                           (case (documentCountWithCustomerError detailsFile,
                                  documentCountWithServerError detailsFile) of
                              (Some clientErrs, Some serverErrs) \<Rightarrow>
                                (Returns \<lparr> jobLib = lib', jobId = id'', jobDetails = details,
                                   jobOutputDataPrefix = outputDataPrefix detailsFile,
                                   clientErrors = clientErrs, serverErrors = serverErrs \<rparr>, ev)
                            | _ \<Rightarrow> (ReturnsNull, ev))))))))"

definition retrieveInputMetadata ::
  "worldB \<Rightarrow> string \<Rightarrow> inputMetadata result \<times> event list" where
  "retrieveInputMetadata w filename =
     (if \<not> isNonEmptyString (Some filename) then (ReturnsNull, [])
      else
       (case getFileContents w MetadataRecord filename of
          (Throws, ev) \<Rightarrow> (Throws, ev)
        | (ReturnsNull, ev) \<Rightarrow> (ReturnsNull, ev)
        | (Returns metaContents, ev) \<Rightarrow>
           (case parseMetadata w metaContents of
              None \<Rightarrow> (ReturnsNull, ev)
            | Some metadata \<Rightarrow>
                if \<not> isNonEmptyString (targetLib metadata) then (ReturnsNull, ev)
                else if \<not> isNonEmptyString (targetPath metadata) then (ReturnsNull, ev)
                else if allPages metadata = None then (ReturnsNull, ev)
                else (Returns metadata, ev))))"

section \<open>Stage B: the writer\<close>

text \<open>\<^verbatim>\<open>assembleUrl\<close>, with the loop over the parts as \<open>assembleUrlFrom\<close>.\<close>

fun assembleUrlFrom :: "string \<Rightarrow> string list \<Rightarrow> string" where
  "assembleUrlFrom url' [] = url'"
| "assembleUrlFrom url' (currPart # parts) =
     (if isNonEmptyString (Some currPart)
      then assembleUrlFrom
             ((if \<not> endsWith url' ''/'' \<and> length (trim url') > 1 then url' @ ''/'' else url')
              @ currPart) parts
      else assembleUrlFrom url' parts)"

definition assembleUrl :: "string list \<Rightarrow> string" where
  "assembleUrl parts = assembleUrlFrom [] parts"

text \<open>
  The destination library is a state \<open>'d\<close> with the effect of each request on it; how it
  answers is not part of the engine. A page creation is answered with a status and the new
  page id, or fails (any HTTP error makes \<^verbatim>\<open>axios\<close> throw). The request carries the
  \<^verbatim>\<open>abort\<close> parameter of its address. Tag, property and thumbnail requests are best effort:
  the source looks at their answers only to log a warning. \<open>reencodeJson\<close> is
  \<^verbatim>\<open>JSON.stringify(JSON.parse(v))\<close>, \<open>None\<close> when parsing throws.
\<close>

record createRequest =
  createPath :: string
  createTitle :: string
  createAbort :: string
  createContents :: string

datatype createResponse = CreateFailed | CreateAnswer string "string option"

record 'd platform =
  createPage :: "'d \<Rightarrow> createRequest \<Rightarrow> createResponse \<times> 'd"
  putTags :: "'d \<Rightarrow> string \<Rightarrow> string list \<Rightarrow> 'd"
  putProperties :: "'d \<Rightarrow> string \<Rightarrow> (string \<times> string) list \<Rightarrow> 'd"
  copyThumbnail :: "'d \<Rightarrow> string \<times> string \<Rightarrow> string \<Rightarrow> 'd"
  reencodeJson :: "string \<Rightarrow> string option"

definition savePageTags :: "'d platform \<Rightarrow> meta \<Rightarrow> string \<Rightarrow> 'd \<Rightarrow> 'd" where
  "savePageTags plat m newPageID d =
     (case tags m of
        None \<Rightarrow> d
      | Some ts \<Rightarrow>
          putTags plat d newPageID (ts @ [''source[translate]-'' @ lib m @ ''-'' @ id' m]))"

fun propEntries :: "'d platform \<Rightarrow> (string \<times> string) list \<Rightarrow> (string \<times> string) list option" where
  "propEntries plat [] = Some []"
| "propEntries plat (currProp # rest) =
     (case (if strIncludes (fst currProp) ''idf.guideTabs''
            then reencodeJson plat (snd currProp) else Some (snd currProp)) of
        None \<Rightarrow> None
      | Some propValue \<Rightarrow>
          (case propEntries plat rest of
             None \<Rightarrow> None
           | Some entries \<Rightarrow> Some ((fst currProp, propValue) # entries)))"

definition savePageProperties :: "'d platform \<Rightarrow> meta \<Rightarrow> string \<Rightarrow> 'd \<Rightarrow> 'd" where
  "savePageProperties plat m newPageID d =
     (case propEntries plat (case props m of None \<Rightarrow> [] | Some ps \<Rightarrow> ps) of
        None \<Rightarrow> d
      | Some entries \<Rightarrow>
          (let entries' = (if isNonEmptyString (summary m)
                           then entries @ [(''mindtouch.page#overview'', the (summary m))]
                           else entries)
           in if entries' = [] then d else putProperties plat d newPageID entries'))"

text \<open>
  The request of lines 761 to 772: the destination path from the target path, the parent
  path and the page's own segment, the trimmed title, \<^verbatim>\<open>abort=exists\<close>, the trimmed contents.
\<close>

definition createPageRequest :: "string \<Rightarrow> string \<Rightarrow> meta \<Rightarrow> string \<Rightarrow> createRequest" where
  "createPageRequest targetPath' parentPath m contents =
     \<lparr> createPath = assembleUrl [targetPath', parentPath, newPagePath (title m) (urlNumPrefix m)],
       createTitle = trim (title m),
       createAbort = ''exists'',
       createContents = trim contents \<rparr>"

text \<open>
  \<^verbatim>\<open>saveToLibrary\<close> and its loop over the subpages, \<open>saveEach\<close>, which drops the result of every
  call (the callback of \<^verbatim>\<open>async.eachLimit\<close> awaits it and returns nothing). Every throw
  inside \<^verbatim>\<open>saveToLibrary\<close> is caught and turned into \<^verbatim>\<open>false\<close>.
\<close>

fun saveToLibrary ::
  "'d platform \<Rightarrow> string option \<Rightarrow> string option \<Rightarrow> string \<Rightarrow> page \<Rightarrow> 'd \<Rightarrow> bool \<times> 'd"
and saveEach ::
  "'d platform \<Rightarrow> string option \<Rightarrow> string option \<Rightarrow> string \<Rightarrow> page list \<Rightarrow> 'd \<Rightarrow> 'd" where
  "saveToLibrary plat targetLib' targetPath' parentPath Null d = (False, d)"
| "saveToLibrary plat targetLib' targetPath' parentPath (Page m c sp) d =
     (if \<not> isNonEmptyString targetLib' \<or> \<not> isNonEmptyString targetPath' then (False, d)
      else
       (case c of
          None \<Rightarrow> (False, d)
        | Some contents \<Rightarrow>
           (case createPage plat d (createPageRequest (the targetPath') parentPath m contents) of
              (CreateFailed, d1) \<Rightarrow> (False, d1)
            | (CreateAnswer status newPageID, d1) \<Rightarrow>
               if status \<noteq> ''success'' \<or> \<not> isNonEmptyString newPageID then (False, d1)
               else
                (let d2 = savePageTags plat m (the newPageID) d1;
                     d3 = savePageProperties plat m (the newPageID) d2;
                     d4 = (case sp of
                             None \<Rightarrow> d3
                           | Some subs \<Rightarrow>
                               saveEach plat targetLib' targetPath'
                                 (assembleUrl [parentPath, newPagePath (title m) (urlNumPrefix m)])
                                 subs d3);
                     isGuide = (case tags m of
                                  None \<Rightarrow> False
                                | Some ts \<Rightarrow> ''article:topic-category'' \<in> set ts
                                             \<or> ''article:topic-guide'' \<in> set ts);
                     d5 = (if isGuide \<and> isNonEmptyString (Some (lib m))
                                     \<and> isNonEmptyString (Some (id' m))
                           then copyThumbnail plat d4 (lib m, id' m) (the newPageID)
                           else d4)
                 in (True, d5)))))"
| "saveEach plat targetLib' targetPath' parentPath [] d = d"
| "saveEach plat targetLib' targetPath' parentPath (subpage # rest) d =
     saveEach plat targetLib' targetPath' parentPath rest
       (snd (saveToLibrary plat targetLib' targetPath' parentPath subpage d))"

section \<open>Stage B: \<^verbatim>\<open>processTranslated\<close>\<close>

definition retrieveLibraryParametersFor :: "worldB \<Rightarrow> string option \<Rightarrow> bool \<times> event list" where
  "retrieveLibraryParametersFor w libName =
     (let lib' = (case libName of None \<Rightarrow> ''undefined'' | Some l \<Rightarrow> l)
      in case ssmFor w libName of
           None \<Rightarrow> (False, [SsmGetFor libName])
         | Some keysResponse \<Rightarrow>
             if ssmStatus keysResponse \<noteq> 200 then (False, [SsmGetFor libName])
             else (case ssmParameters keysResponse of
                     None \<Rightarrow> (False, [SsmGetFor libName])
                   | Some Parameters \<Rightarrow>
                       (let named = (\<lambda>suffix param. case fst param of
                                       None \<Rightarrow> False
                                     | Some name \<Rightarrow> strIncludes name (lib' @ suffix));
                            libraryKey = find (named ''/key'') Parameters;
                            librarySec = find (named ''/secret'') Parameters
                        in (libraryKey \<noteq> None \<and> librarySec \<noteq> None, [SsmGetFor libName]))))"

definition retrieveAndProcessTranslatedContent ::
  "worldB \<Rightarrow> string \<Rightarrow> page option \<times> event list" where
  "retrieveAndProcessTranslatedContent w filename =
     (if \<not> isNonEmptyString (Some filename) then (Some Null, [])
      else
       (case getFileContents w TranslatedFile filename of
          (Throws, ev) \<Rightarrow> (None, ev)
        | (ReturnsNull, ev) \<Rightarrow> (Some Null, ev)
        | (Returns translatedContents, ev) \<Rightarrow>
            if \<not> isNonEmptyString (Some translatedContents) then (Some Null, ev)
            else (Some (parseTranslated w translatedContents), ev)))"

fun retrieveEachTranslated :: "worldB \<Rightarrow> string list \<Rightarrow> page list option \<times> event list" where
  "retrieveEachTranslated w [] = (Some [], [])"
| "retrieveEachTranslated w (file # files) =
     (case retrieveAndProcessTranslatedContent w file of
        (None, ev) \<Rightarrow> (None, ev)
      | (Some p, ev) \<Rightarrow>
          (case retrieveEachTranslated w files of
             (None, evs) \<Rightarrow> (None, ev @ evs)
           | (Some ps, evs) \<Rightarrow> (Some (p # ps), ev @ evs)))"

definition sendCompletionNotification :: "worldB \<Rightarrow> string list option \<Rightarrow> event list" where
  "sendCompletionNotification w addrs =
     (case addrs of
        None \<Rightarrow> []
      | Some as \<Rightarrow> if length as < 1 then [] else [SendEmail as])"

definition processTranslated ::
  "'d platform \<Rightarrow> nat \<Rightarrow> worldB \<Rightarrow> 'd \<Rightarrow> outcome \<times> event list \<times> 'd" where
  "processTranslated plat depth w d =
     (if \<not> isNonEmptyString (eventJobId w) then (Returned False, [], d)
      else
       (case getTranslationDetailsURI w (the (eventJobId w)) of
          (None, ev1) \<Rightarrow> (Returned False, ev1, d)
        | (Some transOutputURI, ev1) \<Rightarrow>
           (case retrieveTranslationJobDetails w (Some transOutputURI) of
              (Throws, ev2) \<Rightarrow> (Threw, ev1 @ ev2, d)
            | (ReturnsNull, ev2) \<Rightarrow> (Returned False, ev1 @ ev2, d)
            | (Returns jm, ev2) \<Rightarrow>
               (let sourceCoverID = jobLib jm @ ''-'' @ jobId jm
                in case retrieveInputMetadata w
                          (sourceCoverID @ ''/'' @ sourceCoverID @ ''.metadata.json'') of
                     (Throws, ev3) \<Rightarrow> (Threw, ev1 @ ev2 @ ev3, d)
                   | (ReturnsNull, ev3) \<Rightarrow> (Returned False, ev1 @ ev2 @ ev3, d)
                   | (Returns md, ev3) \<Rightarrow>
                      (case (retrieveLibraryParametersFor w (sourceLib md),
                             retrieveLibraryParametersFor w (targetLib md)) of
                         ((srcParams, ev4), (trgtParams, ev5)) \<Rightarrow>
                          if \<not> srcParams \<or> \<not> trgtParams
                          then (Returned False, ev1 @ ev2 @ ev3 @ ev4 @ ev5, d)
                          else
                           (case retrieveEachTranslated w
                                   (map (\<lambda>f. jobOutputDataPrefix jm @ f) (jobDetails jm)) of
                              (None, ev6) \<Rightarrow> (Threw, ev1 @ ev2 @ ev3 @ ev4 @ ev5 @ ev6, d)
                            | (Some translatedPages, ev6) \<Rightarrow>
                               (case mergeInputStructure depth (Some md) (Some translatedPages) of
                                  None \<Rightarrow> (Threw, ev1 @ ev2 @ ev3 @ ev4 @ ev5 @ ev6, d)
                                | Some pageStructure \<Rightarrow>
                                   (case saveToLibrary plat (targetLib md) (targetPath md) []
                                           pageStructure d of
                                      (saveSuccess, d') \<Rightarrow>
                                       if saveSuccess
                                       then (Returned True,
                                             ev1 @ ev2 @ ev3 @ ev4 @ ev5 @ ev6
                                             @ sendCompletionNotification w (notifyAddrs md), d')
                                       else (Returned False,
                                             ev1 @ ev2 @ ev3 @ ev4 @ ev5 @ ev6, d')))))))))"

section \<open>Vocabulary for the properties of both stages\<close>

text \<open>The root of the library's answer carries the cover marker tag.\<close>

fun rootHasCoverTag :: "remote \<Rightarrow> bool" where
  "rootHasCoverTag (Remote None subs) = False"
| "rootHasCoverTag (Remote (Some pageInfo) subs) =
     (''coverpage:yes'' \<in> set (processTags (infoTags pageInfo)))"

fun isDiscoveryRequest :: "event \<Rightarrow> bool" where
  "isDiscoveryRequest (PageInfoGet l p) = True"
| "isDiscoveryRequest (SubpagesGet l i) = True"
| "isDiscoveryRequest ev = False"

fun isContentFetch :: "event \<Rightarrow> bool" where
  "isContentFetch (ContentGet l i) = True"
| "isContentFetch ev = False"

text \<open>Every page information in the library's answers has a non-empty \<^verbatim>\<open>@id\<close>.\<close>

fun idsPresent :: "remote \<Rightarrow> bool"
and idsPresentEach :: "((string \<times> string) \<times> remote) list \<Rightarrow> bool" where
  "idsPresent (Remote info subs) =
     ((case info of None \<Rightarrow> True | Some pageInfo \<Rightarrow> infoId pageInfo \<noteq> [])
      \<and> (case subs of None \<Rightarrow> True | Some listing \<Rightarrow> idsPresentEach listing))"
| "idsPresentEach [] = True"
| "idsPresentEach (entry # rest) = (idsPresent (snd entry) \<and> idsPresentEach rest)"

text \<open>
  A cover identifier as the exporter writes it: a library name, a hyphen and a page id.
  The library name is what stands before the first hyphen, the page id what follows that
  hyphen up to the next one or to the end; the identifier is well formed when it has a
  hyphen and neither part is blank.
\<close>

definition wellFormedCover :: "string \<Rightarrow> bool" where
  "wellFormedCover segment =
     (let lib' = takeWhile (\<lambda>c. c \<noteq> CHR ''-'') segment;
          afterLib = dropWhile (\<lambda>c. c \<noteq> CHR ''-'') segment;
          id'' = takeWhile (\<lambda>c. c \<noteq> CHR ''-'') (drop 1 afterLib)
      in afterLib \<noteq> [] \<and> trim lib' \<noteq> [] \<and> trim id'' \<noteq> [])"

fun isMetadataRead :: "event \<Rightarrow> bool" where
  "isMetadataRead (S3Get MetadataRecord key) = True"
| "isMetadataRead ev = False"

text \<open>
  A creation that did not succeed in the eyes of \<^verbatim>\<open>saveToLibrary\<close>, and the contract of a
  destination library for \<^verbatim>\<open>abort=exists\<close>: a creation at a path where a page exists is
  refused and changes nothing.
\<close>

definition refused :: "createResponse \<Rightarrow> bool" where
  "refused response = (case response of CreateFailed \<Rightarrow> True | CreateAnswer status newId \<Rightarrow> status \<noteq> ''success'')"

definition honoursAbortExists :: "'d platform \<Rightarrow> ('d \<Rightarrow> string \<Rightarrow> bool) \<Rightarrow> bool" where
  "honoursAbortExists plat pageExists =
     (\<forall>d request. createAbort request = ''exists'' \<longrightarrow> pageExists d (createPath request)
        \<longrightarrow> refused (fst (createPage plat d request)) \<and> snd (createPage plat d request) = d)"

text \<open>
  The tree the reconstructor is expected to build from the flat list of a tree: the same
  nodes, without \<^verbatim>\<open>contents\<close>, each with the array of its rebuilt subpages.
\<close>

fun rebuilt :: "page \<Rightarrow> page" where
  "rebuilt Null = Null"
| "rebuilt (Page m c sp) = Page m None (Some (case sp of None \<Rightarrow> [] | Some ks \<Rightarrow> map rebuilt ks))"

text \<open>The identity \<^verbatim>\<open>(lib, id)\<close> of a page.\<close>

fun libId :: "page \<Rightarrow> (string \<times> string) option" where
  "libId Null = None"
| "libId (Page m c sp) = Some (lib m, id' m)"

text \<open>
  The test of \<^verbatim>\<open>createPageStructure\<close> for attaching an entry under the page with \<^verbatim>\<open>id\<close> \<open>i\<close>.
\<close>

definition attached :: "string \<Rightarrow> page \<Rightarrow> bool" where
  "attached i x = (\<not> isRoot x \<and> parentOf x = Some i)"

text \<open>
  The parent of every non-root node resolves to exactly one node of the list: one node has
  that \<^verbatim>\<open>id\<close>.
\<close>

definition parentsResolveOnce :: "page list \<Rightarrow> bool" where
  "parentsResolveOnce ns =
     list_all (\<lambda>x. isRoot x \<or> length (filter (\<lambda>q. idOf q = parentOf x) ns) = 1) ns"

text \<open>
  For every node of a tree, the entries of \<open>E\<close> attached to its \<^verbatim>\<open>id\<close> are its subpages, in
  their order.
\<close>

fun linkedIn :: "page list \<Rightarrow> page \<Rightarrow> bool" where
  "linkedIn E Null = False"
| "linkedIn E (Page m c sp) =
     (filter (attached (id' m)) E = map strip (subpagesOf (Page m c sp)) \<and>
      (case sp of None \<Rightarrow> True | Some ks \<Rightarrow> list_all (linkedIn E) ks))"

definition kidsOwned :: "page \<Rightarrow> bool" where
  "kidsOwned n = (case idOf n of None \<Rightarrow> False | Some i \<Rightarrow> list_all (ownedBy i) (subpagesOf n))"

text \<open>The number of subpages of a node, counted for the \<^verbatim>\<open>id\<close> \<open>i\<close> only.\<close>

definition weight :: "string \<Rightarrow> page \<Rightarrow> nat" where
  "weight i n = (if idOf n = Some i then length (subpagesOf n) else 0)"

section \<open>Example data\<close>

definition emptyMeta :: meta where
  "emptyMeta = \<lparr> lib = [], id' = [], url = None, title = [], tags = None, path = None,
     urlNumPrefix = None, urlTitleExtract = None, root = None, parent = None,
     summary = None, props = None \<rparr>"

text \<open>The two-node text of the end-to-end scenario: the cover \<^verbatim>\<open>chem-10\<close> and its page \<^verbatim>\<open>chem-11\<close>.\<close>

definition coverMeta :: meta where
  "coverMeta = emptyMeta \<lparr> lib := ''chem'', id' := ''10'', title := ''Chemistry'',
     tags := Some [''coverpage:yes''], path := Some ''Bookshelves/Chemistry'',
     root := Some True \<rparr>"

definition introMeta :: meta where
  "introMeta = emptyMeta \<lparr> lib := ''chem'', id' := ''11'', title := ''1.1: Intro'',
     tags := Some [''article:topic''], path := Some ''Bookshelves/Chemistry/1.1%3A_Intro'',
     urlNumPrefix := Some ''1.1'', urlTitleExtract := Some ''Intro'',
     root := Some False, parent := Some ''10'' \<rparr>"

definition introPage :: page where
  "introPage = Page introMeta (Some ''<p>Atoms</p>'') (Some [])"

definition coverPage :: page where
  "coverPage = Page coverMeta (Some ''<p>Welcome</p>'') (Some [introPage])"

text \<open>A stored metadata record for the scenario; its page list is filled in where it is used.\<close>

definition chemJobRecord :: inputMetadata where
  "chemJobRecord = \<lparr> sourceLib = Some ''chem'', sourceId = Some ''10'', pageCount = Some 2,
     allPages = None, targetLib = Some ''query'', targetPath = Some ''Bookshelves/Translated'',
     notifyAddrs = None \<rparr>"

text \<open>
  A library whose page \<^verbatim>\<open>chem-10\<close> is a cover without subpages, a request for it, and services
  that all answer with success.
\<close>

definition plainCoverInfo :: pageInfo where
  "plainCoverInfo = \<lparr> infoId = ''10'', infoUri = Some ''https://chem.libretexts.org/Bookshelves/Chemistry'',
     infoTitle = ''Chemistry'', infoTags = Some (TagSingle (Some ''article:topic-category'')) \<rparr>"

definition coverInfo :: pageInfo where
  "coverInfo = plainCoverInfo \<lparr> infoTags := Some (TagArray [Some ''coverpage:yes'']) \<rparr>"

definition chemRequest :: reqParams where
  "chemRequest = \<lparr> reqLib = ''chem'', reqPath = ''Bookshelves/Chemistry'',
     reqTargetLib = Some ''query'', reqTargetPath = Some ''Bookshelves/Translated'',
     reqLanguage = Some ''es'' \<rparr>"

definition chemWorld :: world where
  "chemWorld = \<lparr> eventBody = Some chemRequest, queueDeleteStatus = Some 200,
     ssm = Some \<lparr> ssmStatus = 200,
       ssmParameters = Some [(Some ''/libkeys/chem/key'', ''k''), (Some ''/libkeys/chem/secret'', ''s'')] \<rparr>,
     site = Remote (Some coverInfo) (Some []),
     pageContent = (\<lambda>l i. Some ''<p>Hi</p>''),
     pageProperties = (\<lambda>l i. Some []),
     s3PutStatus = (\<lambda>b k. Some 200),
     translateStatus = Some 200 \<rparr>"

text \<open>
  Properties as the library answers them: an edit-tracking property, one without
  \<^verbatim>\<open>contents\<close>, and a page overview.
\<close>

definition editedbyProperty :: property where
  "editedbyProperty = \<lparr> atName = Some ''mindtouch.page#editedby'',
     contentsText = Some (Some ''librebot'') \<rparr>"

definition emptyProperty :: property where
  "emptyProperty = \<lparr> atName = Some ''mindtouch.page#welcomeHidden'', contentsText = None \<rparr>"

definition overviewProperty :: property where
  "overviewProperty = \<lparr> atName = Some ''mindtouch.page#overview'',
     contentsText = Some (Some ''An overview'') \<rparr>"

definition notACoverWorld :: world where
  "notACoverWorld = chemWorld \<lparr> site := Remote (Some plainCoverInfo) (Some []) \<rparr>"

definition failingUploadWorld :: world where
  "failingUploadWorld = chemWorld \<lparr> s3PutStatus := (\<lambda>b k. Some 500) \<rparr>"

definition fetchedCoverMeta :: meta where
  "fetchedCoverMeta = \<lparr> lib = ''chem'', id' = ''10'',
     url = Some ''https://chem.libretexts.org/Bookshelves/Chemistry'', title = ''Chemistry'',
     tags = Some [''coverpage:yes''], path = Some ''Bookshelves/Chemistry'',
     urlNumPrefix = None, urlTitleExtract = None, root = Some True, parent = None,
     summary = None, props = Some [] \<rparr>"

text \<open>
  A completed job whose details file names the input prefix \<^verbatim>\<open>s3://polyglot-input/chem10/\<close>,
  without a hyphen in the cover identifier. The details file of the job is the text \<^verbatim>\<open>{}\<close>
  for short; any other text parses to the details of a job on the cover \<^verbatim>\<open>chem-10\<close>.
\<close>

definition hyphenlessManifest :: jobDetailsFile where
  "hyphenlessManifest = \<lparr> detailsList = Some [''es.chem-10.html''],
     inputDataPrefix = Some ''s3://polyglot-input/chem10/'',
     outputDataPrefix = ''s3://polyglot-output/chem10/123-TranslateText-abc/'',
     documentCountWithCustomerError = Some 0, documentCountWithServerError = Some 0 \<rparr>"

definition chemManifest :: jobDetailsFile where
  "chemManifest = hyphenlessManifest \<lparr> inputDataPrefix := Some ''s3://polyglot-input/chem-10/'' \<rparr>"

definition hyphenlessWorld :: worldB where
  "hyphenlessWorld = \<lparr> eventJobId = Some ''abc'',
     describeJob = (\<lambda>j. Some \<lparr> describeStatus = 200,
        outputFolder = ''s3://polyglot-output/chem10/123-TranslateText-abc/'',
        targetLanguageCodes = [''es''] \<rparr>),
     outputBucket = Some ''polyglot-output'',
     s3Object = (\<lambda>key. GetBody ''{}''),
     parseJobDetails =
       (\<lambda>fileText. if fileText = ''{}'' then Some hyphenlessManifest else Some chemManifest),
     parseMetadata = (\<lambda>fileText. None),
     parseTranslated = (\<lambda>fileText. Null),
     ssmFor = (\<lambda>l. None),
     emailStatus = None \<rparr>"

definition hyphenlessDetailsUri :: string where
  "hyphenlessDetailsUri =
     ''s3://polyglot-output/chem10/123-TranslateText-abc/details/es.auxiliary-translation-details.json''"

text \<open>A library kept in memory: the contents stored under each path.\<close>

definition memoryLibrary :: "(string \<times> string) list platform" where
  "memoryLibrary = \<lparr>
     createPage = (\<lambda>d request.
        if createAbort request = ''exists'' \<and> map_of d (createPath request) \<noteq> None
        then (CreateFailed, d)
        else (CreateAnswer ''success'' (Some (createPath request)),
              (createPath request, createContents request) # d)),
     putTags = (\<lambda>d pageId ts. d),
     putProperties = (\<lambda>d pageId ps. d),
     copyThumbnail = (\<lambda>d source target. d),
     reencodeJson = (\<lambda>v. Some v) \<rparr>"

definition storedAt :: "(string \<times> string) list \<Rightarrow> string \<Rightarrow> bool" where
  "storedAt d p = (map_of d p \<noteq> None)"

text \<open>A destination library that already has a page at the path of the translated cover.\<close>

definition occupiedLibrary :: "(string \<times> string) list" where
  "occupiedLibrary = [(''Bookshelves/Translated/Quimica'', ''<p>old</p>'')]"

definition translatedCoverMeta :: meta where
  "translatedCoverMeta = coverMeta \<lparr> title := ''Quimica'' \<rparr>"

section \<open>Properties\<close>

lemma splitFrom_not_Nil: "splitFrom sep acc s \<noteq> []"
  by (induction sep acc s rule: splitFrom.induct) auto

lemma split_not_Nil: "split sep s \<noteq> []"
  by (simp add: split_def splitFrom_not_Nil)

text \<open>
  Claim C6. Parsing the path \<^verbatim>\<open>2.03%3ASome_Title\<close> succeeds with number prefix
  \<^verbatim>\<open>2.03\<close> and title \<^verbatim>\<open>Some Title\<close> (underscores turned into spaces); parsing
  \<^verbatim>\<open>Overview\<close>, which has no delimiter, reports no success.
\<close>

theorem parsePagePath_examples:
  "parsePagePath (Some ''2.03%3ASome_Title'') = (True, Some ''2.03'', Some ''Some Title'')
   \<and> fst (parsePagePath (Some ''Overview'')) = False"
  by (simp add: parsePagePath_def split_def startsWith_def sectionNumberTest_def isDigit_def
      trim_def isWhitespace_def replaceAll_def Let_def)

subsection \<open>The flattener\<close>

lemma flatten_preorder:
  "nullFree t \<longrightarrow> createFlatPageMetadataList t = Some (map strip (preorder t), strip t)"
  and "list_all nullFree ks \<longrightarrow>
        flattenSubpages ks acc = Some (acc @ concat (map (\<lambda>k. map strip (preorder k)) ks))"
proof (induction t and ks acc rule: createFlatPageMetadataList_flattenSubpages.induct)
  case 1
  show ?case by simp
next
  case (2 m c sp)
  then show ?case by (cases sp) (simp_all add: map_concat comp_def Let_def)
next
  case (3 pagesArr)
  show ?case by simp
next
  case (4 k ks pagesArr)
  then show ?case by simp
qed

lemma createFlatPageMetadataList_nullFree:
  "nullFree t \<Longrightarrow> createFlatPageMetadataList t = Some (map strip (preorder t), strip t)"
  using flatten_preorder(1) by blast

lemma length_preorder: "length (preorder t) = nodeCount t"
proof (induction t)
  case Null
  show ?case by simp
next
  case (Page m c sp)
  show ?case
  proof (cases sp)
    case None
    then show ?thesis by simp
  next
    case (Some ks)
    have "\<And>k. k \<in> set ks \<Longrightarrow> length (preorder k) = nodeCount k"
      using Page Some by simp
    then have "sum_list (map (\<lambda>k. length (preorder k)) ks) = sum_list (map nodeCount ks)"
      by (induction ks) simp_all
    then show ?thesis using Some by (simp add: length_concat comp_def)
  qed
qed

lemma strip_simps [simp]:
  "isRoot (strip e) = isRoot e" "parentOf (strip e) = parentOf e" "idOf (strip e) = idOf e"
  "libId (strip e) = libId e" "(strip e = Null) = (e = Null)"
  by (cases e; simp)+

lemma precededByOwner_append:
  "precededByOwner seen (xs @ ys) = (precededByOwner seen xs \<and> precededByOwner (seen @ xs) ys)"
  by (induction xs arbitrary: seen) auto

lemma ownedBy_nullFree: "ownedBy p s \<Longrightarrow> nullFree s"
proof (induction s arbitrary: p)
  case Null
  then show ?case by simp
next
  case (Page m c sp)
  then show ?case by (cases sp) (auto simp: list_all_iff)
qed

lemma pageNodeTree_nullFree: "pageNodeTree t \<Longrightarrow> nullFree t"
  by (cases t) (auto simp: list_all_iff ownedBy_nullFree split: option.splits)

lemma ownedBy_no_root: "ownedBy p s \<Longrightarrow> filter isRoot (map strip (preorder s)) = []"
proof (induction s arbitrary: p)
  case Null
  then show ?case by simp
next
  case (Page m c sp)
  show ?case
  proof (cases sp)
    case None
    with Page.prems show ?thesis by simp
  next
    case (Some ks)
    have "\<And>k. k \<in> set ks \<Longrightarrow> filter isRoot (map strip (preorder k)) = []"
      using Page Some by (auto simp: list_all_iff)
    then have "filter isRoot (map strip (concat (map preorder ks))) = []"
      by (induction ks) simp_all
    with Page.prems Some show ?thesis by simp
  qed
qed

lemma ownedBy_preceded:
  "ownedBy p s \<Longrightarrow> list_ex (\<lambda>q. idOf q = Some p) seen \<Longrightarrow>
   precededByOwner seen (map strip (preorder s))"
proof (induction s arbitrary: p seen)
  case Null
  then show ?case by simp
next
  case (Page m c sp)
  have here: "list_ex (\<lambda>q. parentOf (Page m None None) = idOf q) seen"
    using Page.prems by (simp add: list_ex_iff) metis
  show ?case
  proof (cases sp)
    case None
    with here show ?thesis by simp
  next
    case (Some ks)
    have kids: "\<And>k seen'. k \<in> set ks \<Longrightarrow> list_ex (\<lambda>q. idOf q = Some (id' m)) seen' \<Longrightarrow>
        precededByOwner seen' (map strip (preorder k))"
      using Page Some by (auto simp: list_all_iff)
    have "list_ex (\<lambda>q. idOf q = Some (id' m)) seen' \<Longrightarrow>
        precededByOwner seen' (map strip (concat (map preorder ks)))" for seen'
      using kids
    proof (induction ks arbitrary: seen')
      case Nil
      show ?case by simp
    next
      case (Cons k ks)
      have "list_ex (\<lambda>q. idOf q = Some (id' m)) (seen' @ map strip (preorder k))"
        using Cons.prems(1) by (auto simp: list_ex_iff)
      then show ?case using Cons by (simp add: precededByOwner_append)
    qed
    then have "precededByOwner (seen @ [Page m None None]) (map strip (concat (map preorder ks)))"
      by (simp add: list_ex_iff)
    with here Some show ?thesis by simp
  qed
qed

lemma precededByOwner_nth:
  "precededByOwner seen out \<Longrightarrow> i < length out \<Longrightarrow> \<not> isRoot (out ! i) \<Longrightarrow>
   list_ex (\<lambda>q. parentOf (out ! i) = idOf q) (seen @ take i out)"
proof (induction out arbitrary: seen i)
  case Nil
  then show ?case by simp
next
  case (Cons e es)
  show ?case
  proof (cases i)
    case 0
    with Cons.prems show ?thesis by simp
  next
    case (Suc n)
    with Cons.prems Cons.IH [of "seen @ [e]" n] show ?thesis by simp
  qed
qed

lemma ownedBy_list_preceded:
  "list_all (ownedBy p) ks \<Longrightarrow> list_ex (\<lambda>q. idOf q = Some p) seen \<Longrightarrow>
   precededByOwner seen (map strip (concat (map preorder ks)))"
proof (induction ks arbitrary: seen)
  case Nil
  show ?case by simp
next
  case (Cons k ks)
  have "list_ex (\<lambda>q. idOf q = Some p) (seen @ map strip (preorder k))"
    using Cons.prems(2) by (auto simp: list_ex_iff)
  then show ?case using Cons by (auto simp: precededByOwner_append intro: ownedBy_preceded)
qed

lemma ownedBy_list_no_root:
  "list_all (ownedBy p) ks \<Longrightarrow> filter isRoot (map strip (concat (map preorder ks))) = []"
  by (induction ks) (auto intro: ownedBy_no_root)

text \<open>
  Claim C3. For a page tree (the root flagged \<^verbatim>\<open>root: true\<close>, every other node flagged
  \<^verbatim>\<open>root: false\<close> and carrying its owner's \<^verbatim>\<open>id\<close> as \<^verbatim>\<open>parent\<close>, as discovery builds it)
  the flattener returns a list with as many entries as the tree has nodes, exactly one of
  which has \<^verbatim>\<open>root = true\<close>, and the \<^verbatim>\<open>parent\<close> of every other entry is the \<^verbatim>\<open>id\<close> of an
  entry at another position of the list.
\<close>

theorem flattener_counts_root_and_parents:
  assumes "pageNodeTree t"
  shows "\<exists>out post. createFlatPageMetadataList t = Some (out, post)
           \<and> length out = nodeCount t
           \<and> length (filter isRoot out) = 1
           \<and> (\<forall>i<length out. \<not> isRoot (out ! i) \<longrightarrow>
                 (\<exists>j<length out. j \<noteq> i \<and> parentOf (out ! i) = idOf (out ! j)))"
proof -
  let ?out = "map strip (preorder t)"
  obtain m c sp where t: "t = Page m c sp"
    using assms by (cases t) simp_all
  have kids: "list_all (ownedBy (id' m)) (subpagesOf t)"
    using assms t by (cases sp) simp_all
  have pre: "preorder t = t # concat (map preorder (subpagesOf t))"
    using t by (cases sp) simp_all
  have run: "createFlatPageMetadataList t = Some (?out, strip t)"
    using assms by (simp add: pageNodeTree_nullFree createFlatPageMetadataList_nullFree)
  have len: "length ?out = nodeCount t"
    by (simp add: length_preorder)
  have "filter isRoot ?out = [strip t]"
    using assms t kids pre by (simp add: ownedBy_list_no_root)
  then have one: "length (filter isRoot ?out) = 1"
    by simp
  have "precededByOwner [strip t] (map strip (concat (map preorder (subpagesOf t))))"
    using kids t by (intro ownedBy_list_preceded) simp_all
  then have chain: "precededByOwner [] ?out"
    using assms t pre by simp
  have links: "\<exists>j<length ?out. j \<noteq> i \<and> parentOf (?out ! i) = idOf (?out ! j)"
    if i: "i < length ?out" and nr: "\<not> isRoot (?out ! i)" for i
  proof -
    have "list_ex (\<lambda>q. parentOf (?out ! i) = idOf q) ([] @ take i ?out)"
      using chain i nr by (rule precededByOwner_nth)
    then obtain q where q: "q \<in> set (take i ?out)" "parentOf (?out ! i) = idOf q"
      by (auto simp: list_ex_iff)
    then obtain j where j: "j < length (take i ?out)" "take i ?out ! j = q"
      by (auto simp: in_set_conv_nth)
    then have "j < i" "j < length ?out" "?out ! j = q"
      using i by simp_all
    with q show ?thesis by auto
  qed
  show ?thesis
    using run len one links by blast
qed

theorem flattener_counts_root_and_parents_witness:
  "pageNodeTree coverPage
   \<and> (\<exists>out post. createFlatPageMetadataList coverPage = Some (out, post)
           \<and> length out = nodeCount coverPage
           \<and> length (filter isRoot out) = 1
           \<and> (\<forall>i<length out. \<not> isRoot (out ! i) \<longrightarrow>
                 (\<exists>j<length out. j \<noteq> i \<and> parentOf (out ! i) = idOf (out ! j))))"
proof -
  have wf: "pageNodeTree coverPage"
    by (simp add: coverPage_def introPage_def coverMeta_def introMeta_def emptyMeta_def)
  show ?thesis
    using wf flattener_counts_root_and_parents [OF wf] by simp
qed

text \<open>
  Claim C4, as the code has it. For a tree without \<^verbatim>\<open>null\<close> nodes the flattener returns
  the nodes in pre-order (a node before the nodes of its subpages), each without its
  \<^verbatim>\<open>contents\<close> and \<^verbatim>\<open>subpages\<close>. It does so in place: the entries are the input's own node
  objects, and after the call the input object is the first entry, without \<^verbatim>\<open>contents\<close>
  and \<^verbatim>\<open>subpages\<close>; the other fields are as they were.
\<close>

theorem flattener_preorder_in_place:
  assumes "nullFree t"
  shows "createFlatPageMetadataList t = Some (map strip (preorder t), strip t)"
  using assms by (rule createFlatPageMetadataList_nullFree)

theorem flattener_preorder_in_place_witness:
  "nullFree coverPage
   \<and> createFlatPageMetadataList coverPage
       = Some (map strip (preorder coverPage), strip coverPage)"
proof -
  have nf: "nullFree coverPage"
    by (simp add: coverPage_def introPage_def)
  show ?thesis
    using nf flattener_preorder_in_place [OF nf] by simp
qed

text \<open>
  The claim as stated fails: flattening the two-node text changes the input. After the
  call the cover object has lost its \<^verbatim>\<open>contents\<close> and its \<^verbatim>\<open>subpages\<close>.
\<close>

theorem flattener_modifies_input:
  "createFlatPageMetadataList coverPage
     = Some ([Page coverMeta None None, Page introMeta None None], Page coverMeta None None)
   \<and> Page coverMeta None None \<noteq> coverPage"
  by (simp add: coverPage_def introPage_def Let_def)

subsection \<open>The template-token rewrite\<close>

lemma matchTemplate_not_brace: "c \<noteq> CHR ''{'' \<Longrightarrow> matchTemplate (c # cs) = None"
  by (simp add: matchTemplate_def split: list.splits)



lemma dekiReplace_not_brace [simp]:
  "c \<noteq> CHR ''{'' \<Longrightarrow> dekiReplace (c # cs) = c # dekiReplace cs"
  by (simp add: matchTemplate_not_brace dekiReplace.simps(2))

lemma countTemplates_not_brace [simp]:
  "c \<noteq> CHR ''{'' \<Longrightarrow> countTemplates (c # cs) = countTemplates cs"
  by (simp add: matchTemplate_not_brace countTemplates.simps(2))

lemma dekiReplace_Nil_iff [simp]: "dekiReplace s = [] \<longleftrightarrow> s = []"
  by (cases s) (auto simp: noTranslateDiv_def dekiReplace.simps(2) split: option.splits)













subsection \<open>The destination path segment\<close>

text \<open>
  Claim C8. With the section-number hint \<^verbatim>\<open>1.1\<close>, the title \<^verbatim>\<open>1.1: Intro\<close> gives the path
  segment \<^verbatim>\<open>1.1:_Intro\<close>. A title with a second colon, \<^verbatim>\<open>1.1: Acids: Strong and Weak\<close>,
  gives \<^verbatim>\<open>1.1:_Acids\<close>: the source keeps the text between the first and the second colon
  only, where the number prefix and the title without its leading number would be
  \<^verbatim>\<open>1.1:_Acids:_Strong_and_Weak\<close>.
\<close>

theorem newPagePath_second_colon:
  "newPagePath ''1.1: Intro'' (Some ''1.1'') = ''1.1:_Intro''
   \<and> newPagePath ''1.1: Acids: Strong and Weak'' (Some ''1.1'') = ''1.1:_Acids''"
  by (simp add: newPagePath_def isNonEmptyString_def trim_def isWhitespace_def split_def
      startsWith_def replaceAll_def Let_def)

subsection \<open>The round trip through the reconstructor\<close>

text \<open>
  From here on the functions on trees are unfolded through \<open>subpagesOf\<close>, so that a node
  with and without a \<^verbatim>\<open>subpages\<close> array is handled by one equation.
\<close>

lemma page_subpages_induct [case_names Null Page]:
  assumes "P Null"
    and "\<And>m c sp. (\<And>k. k \<in> set (subpagesOf (Page m c sp)) \<Longrightarrow> P k) \<Longrightarrow> P (Page m c sp)"
  shows "P t"
proof (induction t)
  case Null
  show ?case by (rule assms(1))
next
  case (Page m c sp)
  show ?case
  proof (rule assms(2))
    fix k assume "k \<in> set (subpagesOf (Page m c sp))"
    then show "P k" using Page by (cases sp) auto
  qed
qed

lemma preorder_Page: "preorder (Page m c sp) = Page m c sp # concat (map preorder (subpagesOf (Page m c sp)))"
  by (cases sp) simp_all

lemma nullFree_Page: "nullFree (Page m c sp) = list_all nullFree (subpagesOf (Page m c sp))"
  by (cases sp) simp_all

lemma ownedBy_Page:
  "ownedBy p (Page m c sp) = (root m = Some False \<and> parent m = Some p \<and>
     list_all (ownedBy (id' m)) (subpagesOf (Page m c sp)))"
  by (cases sp) simp_all

lemma pageNodeTree_Page:
  "pageNodeTree (Page m c sp) = (root m = Some True \<and> parent m = None \<and>
     list_all (ownedBy (id' m)) (subpagesOf (Page m c sp)))"
  by (cases sp) simp_all

lemma nodeCount_Page: "nodeCount (Page m c sp) = Suc (sum_list (map nodeCount (subpagesOf (Page m c sp))))"
  by (cases sp) simp_all

lemma rebuilt_Page: "rebuilt (Page m c sp) = Page m None (Some (map rebuilt (subpagesOf (Page m c sp))))"
  by (cases sp) simp_all

lemma linkedIn_Page:
  "linkedIn E (Page m c sp) = (filter (attached (id' m)) E = map strip (subpagesOf (Page m c sp)) \<and>
     list_all (linkedIn E) (subpagesOf (Page m c sp)))"
  by (cases sp) simp_all

lemma subpagesOf_Some: "subpagesOf (Page m c (Some ks)) = ks"
  by simp

lemma subpagesOf_None: "subpagesOf (Page m c None) = []"
  by simp

declare subpagesOf.simps(2) [simp del] preorder.simps(2) [simp del] nullFree.simps(2) [simp del]
  ownedBy.simps(2) [simp del] pageNodeTree.simps(2) [simp del] nodeCount.simps(2) [simp del]
  rebuilt.simps(2) [simp del] linkedIn.simps(2) [simp del]

declare subpagesOf_Some [simp] subpagesOf_None [simp] preorder_Page [simp] nullFree_Page [simp]
  ownedBy_Page [simp] pageNodeTree_Page [simp] nodeCount_Page [simp] rebuilt_Page [simp]
  linkedIn_Page [simp]

subsection \<open>The loop of the reconstructor\<close>

lemma attachLoop_filter:
  assumes "list_all (\<lambda>x. x \<noteq> Null) xs"
    and "list_all2 (\<lambda>y r. createPageStructure n y pages = Some r) (filter (attached i) xs) rs"
  shows "attachLoop n i xs pages found = Some (found @ rs)"
  using assms
proof (induction xs arbitrary: found rs)
  case Nil
  then show ?case by simp
next
  case (Cons x xs)
  then obtain sm sc ssp where x: "x = Page sm sc ssp"
    by (cases x) simp_all
  show ?case
  proof (cases "attached i x")
    case True
    then obtain r rs' where rs: "rs = r # rs'" "createPageStructure n x pages = Some r"
      "list_all2 (\<lambda>y r. createPageStructure n y pages = Some r) (filter (attached i) xs) rs'"
      using Cons.prems(2) by (auto simp: list_all2_Cons1)
    have "attachLoop n i xs pages (found @ [r]) = Some ((found @ [r]) @ rs')"
      using Cons.prems(1) rs(3) by (intro Cons.IH) simp_all
    then show ?thesis
      using True x rs by (simp add: attached_def)
  next
    case False
    have "attachLoop n i xs pages found = Some (found @ rs)"
      using Cons.prems False by (intro Cons.IH) simp_all
    then show ?thesis
      using False x by (auto simp: attached_def)
  qed
qed

lemma nodeCount_pos: "nullFree s \<Longrightarrow> 0 < nodeCount s"
  by (cases s) simp_all

lemma nodeCount_subpage:
  "k \<in> set (subpagesOf (Page m c sp)) \<Longrightarrow> nodeCount k < nodeCount (Page m c sp)"
  by (simp add: less_Suc_eq_le member_le_sum_list)

lemma createPageStructure_linked:
  assumes "nullFree s" and "list_all (\<lambda>x. x \<noteq> Null) E" and "linkedIn E s" and "nodeCount s \<le> depth"
  shows "createPageStructure depth (strip s) E = Some (rebuilt s)"
  using assms
proof (induction s arbitrary: depth rule: page_subpages_induct)
  case Null
  then show ?case by simp
next
  case (Page m c sp)
  let ?ks = "subpagesOf (Page m c sp)"
  obtain n where depth: "depth = Suc n"
    using Page.prems(4) by (cases depth) simp_all
  have kid: "createPageStructure n (strip k) E = Some (rebuilt k)" if "k \<in> set ?ks" for k
  proof (rule Page.IH [OF that])
    show "nullFree k" using Page.prems(1) that by (simp add: list_all_iff)
    show "list_all (\<lambda>x. x \<noteq> Null) E" by (rule Page.prems(2))
    show "linkedIn E k" using Page.prems(3) that by (simp add: list_all_iff)
    show "nodeCount k \<le> n" using nodeCount_subpage [OF that] Page.prems(4) depth by simp
  qed
  have "list_all2 (\<lambda>y r. createPageStructure n y E = Some r) (map strip ?ks) (map rebuilt ?ks)"
    using kid by (simp add: list_all2_map1 list_all2_map2 list_all2_same)
  then have "list_all2 (\<lambda>y r. createPageStructure n y E = Some r)
      (filter (attached (id' m)) E) (map rebuilt ?ks)"
    using Page.prems(3) by simp
  then have "attachLoop n (id' m) E E [] = Some ([] @ map rebuilt ?ks)"
    using Page.prems(2) by (intro attachLoop_filter)
  then show ?case
    using depth by simp
qed

subsection \<open>Flattening the rebuilt tree\<close>

lemma rebuilt_nullFree: "nullFree s \<Longrightarrow> nullFree (rebuilt s)"
  by (induction s rule: page_subpages_induct) (simp_all add: list_all_iff)

lemma strip_rebuilt: "strip (rebuilt s) = strip s"
  by (cases s) simp_all

lemma preorder_rebuilt: "nullFree s \<Longrightarrow> map strip (preorder (rebuilt s)) = map strip (preorder s)"
proof (induction s rule: page_subpages_induct)
  case Null
  then show ?case by simp
next
  case (Page m c sp)
  have "\<And>k. k \<in> set (subpagesOf (Page m c sp)) \<Longrightarrow>
      map strip (preorder (rebuilt k)) = map strip (preorder k)"
    using Page by (simp add: list_all_iff)
  then show ?case
    by (simp add: map_concat comp_def cong: map_cong)
qed

subsection \<open>Where the subpages of a node stand in the flat list\<close>

lemma preorder_hd: "nullFree k \<Longrightarrow> \<exists>r. preorder k = k # r"
  by (cases k) simp_all

lemma subseq_subpages_concat: "list_all nullFree ks \<Longrightarrow> subseq ks (concat (map preorder ks))"
proof (induction ks)
  case Nil
  show ?case by simp
next
  case (Cons k ks)
  then obtain r where r: "preorder k = k # r"
    using preorder_hd by auto
  have "subseq ks (r @ concat (map preorder ks))"
    using Cons by (simp add: list_emb_append2)
  then show ?case using r by simp
qed

lemma subseq_member_concat: "k \<in> set ks \<Longrightarrow> subseq (preorder k) (concat (map preorder ks))"
proof (induction ks)
  case Nil
  then show ?case by simp
next
  case (Cons a ks)
  show ?case
  proof (cases "k = a")
    case True
    then show ?thesis by (simp add: subseq_rev_drop_many)
  next
    case False
    then show ?thesis using Cons by (simp add: list_emb_append2)
  qed
qed

lemma subseq_subpages_preorder:
  "nullFree t \<Longrightarrow> n \<in> set (preorder t) \<Longrightarrow> subseq (subpagesOf n) (preorder t)"
proof (induction t rule: page_subpages_induct)
  case Null
  then show ?case by simp
next
  case (Page m c sp)
  let ?ks = "subpagesOf (Page m c sp)"
  show ?case
  proof (cases "n = Page m c sp")
    case True
    have "subseq ?ks (concat (map preorder ?ks))"
      using Page.prems(1) by (intro subseq_subpages_concat) simp
    then show ?thesis using True by (auto intro: list_emb_Cons)
  next
    case False
    then obtain k where k: "k \<in> set ?ks" "n \<in> set (preorder k)"
      using Page.prems(2) by auto
    have "subseq (subpagesOf n) (preorder k)"
      using Page.IH [OF k(1)] Page.prems(1) k by (simp add: list_all_iff)
    moreover have "subseq (preorder k) (concat (map preorder ?ks))"
      using k(1) by (rule subseq_member_concat)
    ultimately have "subseq (subpagesOf n) (concat (map preorder ?ks))"
      by (rule subseq_order.trans)
    then show ?thesis by (auto intro: list_emb_Cons)
  qed
qed

lemma ownedBy_kidsOwned: "ownedBy p s \<Longrightarrow> n \<in> set (preorder s) \<Longrightarrow> kidsOwned n"
proof (induction s arbitrary: p rule: page_subpages_induct)
  case Null
  then show ?case by simp
next
  case (Page m c sp)
  show ?case
  proof (cases "n = Page m c sp")
    case True
    then show ?thesis using Page.prems(1) by (simp add: kidsOwned_def)
  next
    case False
    then obtain k where k: "k \<in> set (subpagesOf (Page m c sp))" "n \<in> set (preorder k)"
      using Page.prems(2) by auto
    then have "ownedBy (id' m) k"
      using Page.prems(1) by (simp add: list_all_iff)
    then show ?thesis using Page.IH k by blast
  qed
qed

lemma pageNodeTree_kidsOwned: "pageNodeTree t \<Longrightarrow> n \<in> set (preorder t) \<Longrightarrow> kidsOwned n"
proof (cases t)
  case Null
  then show "pageNodeTree t \<Longrightarrow> n \<in> set (preorder t) \<Longrightarrow> kidsOwned n" by simp
next
  case (Page m c sp)
  assume wf: "pageNodeTree t" and n: "n \<in> set (preorder t)"
  show "kidsOwned n"
  proof (cases "n = t")
    case True
    then show ?thesis using wf Page by (simp add: kidsOwned_def)
  next
    case False
    then obtain k where k: "k \<in> set (subpagesOf t)" "n \<in> set (preorder k)"
      using n Page by auto
    then have "ownedBy (id' m) k"
      using wf Page by (simp add: list_all_iff)
    then show ?thesis using k ownedBy_kidsOwned by blast
  qed
qed

lemma ownedBy_attached: "ownedBy i k \<Longrightarrow> attached j (strip k) = (i = j)"
  by (cases k) (auto simp: attached_def)

lemma ownedBy_attached_self: "ownedBy i k \<Longrightarrow> attached i (strip k)"
  by (simp add: ownedBy_attached)

subsection \<open>Counting the entries attached to an id\<close>

lemma count_attached_owned:
  "ownedBy p s \<Longrightarrow>
   length (filter (attached i) (map strip (preorder s)))
     = (if p = i then 1 else 0) + sum_list (map (weight i) (preorder s))"
proof (induction s arbitrary: p rule: page_subpages_induct)
  case Null
  then show ?case by simp
next
  case (Page m c sp)
  let ?ks = "subpagesOf (Page m c sp)"
  have kid: "length (filter (attached i) (map strip (preorder k)))
      = (if id' m = i then 1 else 0) + sum_list (map (weight i) (preorder k))"
    if "k \<in> set ?ks" for k
    using Page.IH [OF that] Page.prems that by (simp add: list_all_iff)
  have "set ks \<subseteq> set ?ks \<Longrightarrow>
      length (filter (attached i) (map strip (concat (map preorder ks))))
      = (if id' m = i then length ks else 0) + sum_list (map (weight i) (concat (map preorder ks)))"
    for ks
    by (induction ks) (simp_all add: kid del: filter_map length_filter_map)
  then have "length (filter (attached i) (map strip (concat (map preorder ?ks))))
      = weight i (Page m c sp) + sum_list (map (weight i) (concat (map preorder ?ks)))"
    by (simp add: weight_def del: filter_map length_filter_map)
  moreover have "attached i (Page m None None) = (p = i)"
    using Page.prems by (auto simp: attached_def)
  ultimately show ?case by (simp del: filter_map length_filter_map)
qed

lemma count_attached_root:
  assumes "pageNodeTree t"
  shows "length (filter (attached i) (map strip (preorder t))) = sum_list (map (weight i) (preorder t))"
proof -
  obtain m c sp where t: "t = Page m c sp"
    using assms by (cases t) simp_all
  let ?ks = "subpagesOf (Page m c sp)"
  have kid: "length (filter (attached i) (map strip (preorder k)))
      = (if id' m = i then 1 else 0) + sum_list (map (weight i) (preorder k))"
    if "k \<in> set ?ks" for k
    using assms t that by (intro count_attached_owned) (simp add: list_all_iff)
  have "set ks \<subseteq> set ?ks \<Longrightarrow>
      length (filter (attached i) (map strip (concat (map preorder ks))))
      = (if id' m = i then length ks else 0) + sum_list (map (weight i) (concat (map preorder ks)))"
    for ks
    by (induction ks) (simp_all add: kid del: filter_map length_filter_map)
  then have "length (filter (attached i) (map strip (concat (map preorder ?ks))))
      = weight i (Page m c sp) + sum_list (map (weight i) (concat (map preorder ?ks)))"
    by (simp add: weight_def del: filter_map length_filter_map)
  moreover have "\<not> attached i (Page m None None)"
    using assms t by (simp add: attached_def)
  ultimately show ?thesis using t by (simp del: filter_map length_filter_map)
qed

lemma weight_sum_single:
  assumes wf: "pageNodeTree t" and once: "parentsResolveOnce (preorder t)"
    and n: "n \<in> set (preorder t)" and i: "idOf n = Some i"
  shows "sum_list (map (weight i) (preorder t)) = length (subpagesOf n)"
proof -
  let ?same = "\<lambda>q. idOf q = Some i"
  have nf: "nullFree t"
    using wf by (rule pageNodeTree_nullFree)
  obtain N1 N2 where split: "preorder t = N1 @ n # N2"
    using n by (meson split_list)
  have zero: "weight i q = 0" if q: "q \<in> set N1 \<union> set N2" for q
  proof (rule ccontr)
    assume "weight i q \<noteq> 0"
    then have qi: "idOf q = Some i" and "subpagesOf q \<noteq> []"
      by (simp_all add: weight_def split: if_splits)
    then obtain x where x: "x \<in> set (subpagesOf q)"
      by (cases "subpagesOf q") auto
    have qt: "q \<in> set (preorder t)"
      using q split by auto
    have "kidsOwned q"
      using wf qt by (rule pageNodeTree_kidsOwned)
    then have "ownedBy i x"
      using qi x by (simp add: kidsOwned_def list_all_iff)
    then have xp: "\<not> isRoot x" "parentOf x = Some i"
      by (cases x; simp)+
    have "subseq (subpagesOf q) (preorder t)"
      using nf qt by (rule subseq_subpages_preorder)
    then obtain y where "y \<in> set (preorder t)" "x = y"
      using x by (rule list_emb_set)
    then have xt: "x \<in> set (preorder t)"
      by simp
    have "\<forall>x \<in> set (preorder t). isRoot x \<or> length (filter (\<lambda>q. idOf q = parentOf x) (preorder t)) = 1"
      using once by (simp add: parentsResolveOnce_def list_all_iff)
    then have "isRoot x \<or> length (filter (\<lambda>q. idOf q = parentOf x) (preorder t)) = 1"
      using xt by blast
    then have one: "length (filter ?same (preorder t)) = 1"
      using xp by simp
    have "filter ?same N1 \<noteq> [] \<or> filter ?same N2 \<noteq> []"
      using q qi by (auto simp: filter_empty_conv)
    then have "0 < length (filter ?same N1) \<or> 0 < length (filter ?same N2)"
      by simp
    moreover have "length (filter ?same (preorder t))
        = length (filter ?same N1) + 1 + length (filter ?same N2)"
      using split i by simp
    ultimately show False
      using one by linarith
  qed
  have z1: "sum_list (map (weight i) N1) = 0" and z2: "sum_list (map (weight i) N2) = 0"
    using zero by simp_all
  have "sum_list (map (weight i) (preorder t))
      = sum_list (map (weight i) N1) + weight i n + sum_list (map (weight i) N2)"
    by (simp only: split map_append sum_list.append list.map sum_list.Cons add.assoc)
  moreover have "weight i n = length (subpagesOf n)"
    using i by (simp add: weight_def)
  ultimately show ?thesis
    using z1 z2 by linarith
qed

lemma filter_attached_subpages:
  assumes wf: "pageNodeTree t" and once: "parentsResolveOnce (preorder t)"
    and n: "n \<in> set (preorder t)" and i: "idOf n = Some i"
  shows "filter (attached i) (map strip (preorder t)) = map strip (subpagesOf n)"
proof -
  have nf: "nullFree t"
    using wf by (rule pageNodeTree_nullFree)
  have "kidsOwned n"
    using wf n by (rule pageNodeTree_kidsOwned)
  then have "\<forall>k \<in> set (subpagesOf n). attached i (strip k)"
    using i by (auto simp: kidsOwned_def list_all_iff intro: ownedBy_attached_self)
  then have keep: "filter (attached i) (map strip (subpagesOf n)) = map strip (subpagesOf n)"
    by (simp add: filter_id_conv)
  have "subseq (subpagesOf n) (preorder t)"
    using nf n by (rule subseq_subpages_preorder)
  then have "subseq (map strip (subpagesOf n)) (map strip (preorder t))"
    by (rule subseq_map)
  then have "subseq (filter (attached i) (map strip (subpagesOf n)))
      (filter (attached i) (map strip (preorder t)))"
    by (rule subseq_filter)
  then have sub: "subseq (map strip (subpagesOf n)) (filter (attached i) (map strip (preorder t)))"
    using keep by simp
  have "length (filter (attached i) (map strip (preorder t))) = length (subpagesOf n)"
    using count_attached_root [OF wf] weight_sum_single [OF wf once n i] by simp
  then show ?thesis
    using subseq_same_length [OF sub] by simp
qed

lemma linkedIn_of_members:
  assumes "nullFree s"
    and "\<And>n i. n \<in> set (preorder s) \<Longrightarrow> idOf n = Some i \<Longrightarrow>
           filter (attached i) E = map strip (subpagesOf n)"
  shows "linkedIn E s"
  using assms
proof (induction s rule: page_subpages_induct)
  case Null
  then show ?case by simp
next
  case (Page m c sp)
  have "linkedIn E k" if "k \<in> set (subpagesOf (Page m c sp))" for k
  proof (rule Page.IH [OF that])
    show "nullFree k" using Page.prems(1) that by (simp add: list_all_iff)
    fix n i assume "n \<in> set (preorder k)" "idOf n = Some i"
    then show "filter (attached i) E = map strip (subpagesOf n)"
      using that by (intro Page.prems(2)) auto
  qed
  moreover have "filter (attached (id' m)) E = map strip (subpagesOf (Page m c sp))"
    by (rule Page.prems(2)) simp_all
  ultimately show ?case by (simp add: list_all_iff)
qed

subsection \<open>Merging the flat list with itself\<close>

lemma findInput_self:
  assumes "distinct (map libId xs)" and "list_all (\<lambda>x. x \<noteq> Null) xs" and "Page m c sp \<in> set xs"
  shows "findInput m xs = Some (Some (Page m c sp))"
  using assms
proof (induction xs)
  case Nil
  then show ?case by simp
next
  case (Cons x xs)
  then obtain im ic isp where x: "x = Page im ic isp"
    by (cases x) simp_all
  show ?case
  proof (cases "lib m = lib im \<and> id' m = id' im")
    case True
    then have "libId (Page m c sp) = libId x"
      using x by simp
    moreover have "libId x \<notin> libId ` set xs"
      using Cons.prems(1) by simp
    ultimately have "Page m c sp \<notin> set xs"
      by (auto simp: image_iff)
    then show ?thesis using Cons.prems(3) x True by simp
  next
    case False
    then have "Page m c sp \<in> set xs"
      using Cons.prems(3) x by auto
    then show ?thesis using Cons False x by auto
  qed
qed

lemma mergeOne_self:
  assumes "distinct (map libId xs)" and "list_all (\<lambda>x. x \<noteq> Null) xs" and "e \<in> set xs"
  shows "mergeOne xs e = Some e"
proof -
  obtain m c sp where e: "e = Page m c sp"
    using assms(2,3) by (cases e) (auto simp: list_all_iff)
  show ?thesis
    using findInput_self [OF assms(1,2)] assms(3) e by simp
qed

lemma mapMerge_self: "(\<And>e. e \<in> set ys \<Longrightarrow> mergeOne xs e = Some e) \<Longrightarrow> mapMerge xs ys = Some ys"
  by (induction ys) simp_all

lemma preorder_not_Null: "n \<in> set (preorder t) \<Longrightarrow> n \<noteq> Null"
  by (induction t rule: page_subpages_induct) auto

text \<open>
  Claim C1. Take a page tree with the invariants of the data model: the root and parent
  flags as discovery sets them, pairwise distinct \<^verbatim>\<open>(lib, id)\<close> identities, and every
  parent resolving to exactly one node. Flatten it, hand the flat list to
  \<^verbatim>\<open>mergeInputStructure\<close> both as the stored \<^verbatim>\<open>allPages\<close> and as the pages to merge, and
  flatten the tree it returns: the result is the original flat list, entry for entry and
  in the same order. The reconstruction returns for every recursion bound of at least the
  number of nodes.
\<close>

theorem reconstruct_then_flatten:
  assumes wf: "pageNodeTree t"
    and uniq: "distinct (map libId (preorder t))"
    and once: "parentsResolveOnce (preorder t)"
    and depth: "nodeCount t \<le> depth"
  shows "\<exists>flat post rebuiltTree post'.
           createFlatPageMetadataList t = Some (flat, post)
         \<and> mergeInputStructure depth (Some (md \<lparr> allPages := Some flat \<rparr>)) (Some flat)
             = Some rebuiltTree
         \<and> createFlatPageMetadataList rebuiltTree = Some (flat, post')"
proof -
  let ?E = "map strip (preorder t)"
  have nf: "nullFree t"
    using wf by (rule pageNodeTree_nullFree)
  obtain m c sp where t: "t = Page m c sp"
    using wf by (cases t) simp_all
  have run: "createFlatPageMetadataList t = Some (?E, strip t)"
    using nf by (rule createFlatPageMetadataList_nullFree)
  have nonNull: "list_all (\<lambda>x. x \<noteq> Null) ?E"
    by (auto simp: list_all_iff dest: preorder_not_Null)
  have "libId \<circ> strip = libId"
    by (rule ext) simp
  then have distinctE: "distinct (map libId ?E)"
    using uniq by simp
  have "mapMerge ?E ?E = Some ?E"
    using mergeOne_self [OF distinctE nonNull] by (rule mapMerge_self)
  moreover have "filter (\<lambda>page. page \<noteq> Null) ?E = ?E"
    using nonNull by (simp add: list_all_iff del: filter_map)
  moreover have "find isRoot ?E = Some (strip t)"
    using wf t by simp
  moreover have "createPageStructure depth (strip t) ?E = Some (rebuilt t)"
  proof (rule createPageStructure_linked [OF nf nonNull _ depth])
    show "linkedIn ?E t"
      using nf filter_attached_subpages [OF wf once] by (rule linkedIn_of_members)
  qed
  ultimately have merged:
    "mergeInputStructure depth (Some (md \<lparr> allPages := Some ?E \<rparr>)) (Some ?E) = Some (rebuilt t)"
    by (simp add: mergeInputStructure_def del: filter_map)
  have "createFlatPageMetadataList (rebuilt t)
      = Some (map strip (preorder (rebuilt t)), strip (rebuilt t))"
    using nf by (intro createFlatPageMetadataList_nullFree rebuilt_nullFree)
  then have again: "createFlatPageMetadataList (rebuilt t) = Some (?E, strip t)"
    using nf by (simp only: preorder_rebuilt strip_rebuilt)
  show ?thesis
    using run merged again by blast
qed

theorem reconstruct_then_flatten_witness:
  "pageNodeTree coverPage
   \<and> distinct (map libId (preorder coverPage))
   \<and> parentsResolveOnce (preorder coverPage)
   \<and> nodeCount coverPage \<le> 2
   \<and> (\<exists>flat post rebuiltTree post'.
           createFlatPageMetadataList coverPage = Some (flat, post)
         \<and> mergeInputStructure 2 (Some (chemJobRecord \<lparr> allPages := Some flat \<rparr>)) (Some flat)
             = Some rebuiltTree
         \<and> createFlatPageMetadataList rebuiltTree = Some (flat, post'))"
proof -
  have wf: "pageNodeTree coverPage"
    by (simp add: coverPage_def introPage_def coverMeta_def introMeta_def emptyMeta_def)
  have uniq: "distinct (map libId (preorder coverPage))"
    by (simp add: coverPage_def introPage_def coverMeta_def introMeta_def emptyMeta_def)
  have once: "parentsResolveOnce (preorder coverPage)"
    by (simp add: parentsResolveOnce_def coverPage_def introPage_def coverMeta_def introMeta_def
        emptyMeta_def)
  have depth: "nodeCount coverPage \<le> 2"
    by (simp add: coverPage_def introPage_def)
  show ?thesis
    using wf uniq once depth reconstruct_then_flatten [OF wf uniq once depth, of chemJobRecord]
    by simp
qed

subsection \<open>Stage A\<close>

lemma retrieve_discovery_only:
  "list_all isDiscoveryRequest (snd (retrieveSubpages l p par r))"
  and "list_all isDiscoveryRequest (snd (retrieveEach i rs))"
proof (induction l p par r and i rs rule: retrieveSubpages_retrieveEach.induct)
  case (1 lib' path' parent' info subs)
  show ?case
  proof (cases info)
    case None
    then show ?thesis by simp
  next
    case (Some pageInfo)
    show ?thesis
    proof (cases subs)
      case None
      then show ?thesis using Some by simp
    next
      case (Some listing)
      have "list_all isDiscoveryRequest (snd (retrieveEach (infoId pageInfo) listing))"
        using "1" \<open>info = Some pageInfo\<close> Some by blast
      then show ?thesis
        using \<open>info = Some pageInfo\<close> Some
        by (auto simp: Let_def split: prod.splits)
    qed
  qed
next
  case (2 parentId)
  show ?case by simp
next
  case (3 parentId subLib subPath r rest)
  then show ?case
    by (auto simp: Let_def split: prod.splits)
qed

lemma retrieveSubpages_no_cover:
  "\<not> rootHasCoverTag r \<Longrightarrow> fst (retrieveSubpages l p None r) = Null"
  by (cases r rule: rootHasCoverTag.cases)
     (auto simp: Let_def truthy_def split: option.splits prod.splits)

lemma discovery_not_content: "isDiscoveryRequest ev \<Longrightarrow> \<not> isContentFetch ev"
  by (cases ev) simp_all

text \<open>
  Discovery builds page trees with the root and parent invariants: when every page has an
  \<^verbatim>\<open>@id\<close> and no subtree failed (the result has no \<^verbatim>\<open>null\<close>), the result of the root call is
  a page tree in the sense used for the flattener above.
\<close>

lemma retrieveSubpages_ownedBy:
  "idsPresent r \<Longrightarrow> truthy par \<Longrightarrow>
     nullFree (fst (retrieveSubpages l p par r)) \<Longrightarrow> ownedBy (the par) (fst (retrieveSubpages l p par r))"
  and retrieveEach_ownedBy: "idsPresentEach rs \<Longrightarrow> i \<noteq> [] \<Longrightarrow>
     list_all nullFree (fst (retrieveEach i rs)) \<Longrightarrow> list_all (ownedBy i) (fst (retrieveEach i rs))"
proof (induction l p par r and i rs rule: retrieveSubpages_retrieveEach.induct)
  case (1 lib' path' parent' info subs)
  show ?case
  proof (cases info)
    case None
    then show ?thesis using "1.prems" by simp
  next
    case (Some pageInfo)
    show ?thesis
    proof (cases subs)
      case None
      then show ?thesis using Some "1.prems" by simp
    next
      case (Some listing)
      obtain found evs where found: "retrieveEach (infoId pageInfo) listing = (found, evs)"
        by (cases "retrieveEach (infoId pageInfo) listing")
      have nf: "list_all nullFree found"
        using "1.prems" \<open>info = Some pageInfo\<close> Some found
        by (auto simp: Let_def truthy_def split: prod.splits)
      have "list_all (ownedBy (infoId pageInfo)) (fst (retrieveEach (infoId pageInfo) listing))"
        using "1.IH" [OF \<open>info = Some pageInfo\<close> Some] "1.prems"(1) \<open>info = Some pageInfo\<close> Some nf found
        by simp
      then show ?thesis
        using "1.prems" \<open>info = Some pageInfo\<close> Some found
        by (auto simp: Let_def truthy_def split: prod.splits option.splits)
    qed
  qed
next
  case (2 parentId)
  show ?case by simp
next
  case (3 parentId subLib subPath r rest)
  then show ?case
    by (auto simp: Let_def truthy_def split: prod.splits)
qed

lemma retrieveSubpages_pageNodeTree:
  assumes "idsPresent r" and "nullFree (fst (retrieveSubpages l p None r))"
  shows "pageNodeTree (fst (retrieveSubpages l p None r))"
proof (cases r)
  case (Remote info subs)
  show ?thesis
  proof (cases info)
    case None
    then show ?thesis using assms Remote by simp
  next
    case (Some pageInfo)
    show ?thesis
    proof (cases subs)
      case None
      then show ?thesis using assms Remote Some by simp
    next
      case (Some listing)
      obtain found evs where found: "retrieveEach (infoId pageInfo) listing = (found, evs)"
        by (cases "retrieveEach (infoId pageInfo) listing")
      have ids: "infoId pageInfo \<noteq> []" "idsPresentEach listing"
        using assms(1) Remote \<open>info = Some pageInfo\<close> Some by simp_all
      have nf: "list_all nullFree found"
        using assms(2) Remote \<open>info = Some pageInfo\<close> Some found
        by (auto simp: Let_def truthy_def split: prod.splits if_splits)
      have "list_all (ownedBy (infoId pageInfo)) (fst (retrieveEach (infoId pageInfo) listing))"
        using retrieveEach_ownedBy [OF ids(2) ids(1)] nf found by simp
      then show ?thesis
        using assms(2) Remote \<open>info = Some pageInfo\<close> Some found
        by (auto simp: Let_def truthy_def split: prod.splits if_splits)
    qed
  qed
qed

text \<open>
  Claim C9. If the tags of the root page do not include \<^verbatim>\<open>coverpage:yes\<close>, discovery returns
  \<^verbatim>\<open>null\<close>, the stage does not complete, and none of its requests is a fetch of page
  contents.
\<close>

theorem no_cover_no_content_fetch:
  assumes "\<not> rootHasCoverTag (site w)"
  shows "fst (retrieveSubpages l p None (site w)) = Null
         \<and> fst (startTranslation w) \<noteq> Returned True
         \<and> list_all (\<lambda>ev. \<not> isContentFetch ev) (snd (startTranslation w))"
proof -
  have null: "fst (retrieveSubpages l p None (site w)) = Null" for l p
    using assms by (rule retrieveSubpages_no_cover)
  have disc: "list_all (\<lambda>ev. \<not> isContentFetch ev) (snd (retrieveSubpages l p None (site w)))" for l p
    using retrieve_discovery_only(1) [of l p None "site w"]
    by (auto simp: list_all_iff dest: discovery_not_content)
  have "fst (startTranslation w) \<noteq> Returned True
      \<and> list_all (\<lambda>ev. \<not> isContentFetch ev) (snd (startTranslation w))"
  proof (cases "eventBody w")
    case None
    then show ?thesis by (simp add: startTranslation_def)
  next
    case (Some reqParams)
    obtain t ev3 where r: "retrieveSubpages (reqLib reqParams) (reqPath reqParams) None (site w) = (t, ev3)"
      by (cases "retrieveSubpages (reqLib reqParams) (reqPath reqParams) None (site w)")
    have t: "t = Null"
      using null [of "reqLib reqParams" "reqPath reqParams"] r by simp
    have ev3: "list_all (\<lambda>ev. \<not> isContentFetch ev) ev3"
      using disc [of "reqLib reqParams" "reqPath reqParams"] r by simp
    show ?thesis
      using Some r t ev3
      by (auto simp: startTranslation_def deleteQueueMessage_def retrieveLibraryParameters_def
          Let_def split: option.splits prod.splits if_splits)
  qed
  with null show ?thesis by simp
qed

theorem no_cover_no_content_fetch_witness:
  "\<not> rootHasCoverTag (site notACoverWorld)
   \<and> fst (retrieveSubpages ''chem'' ''Bookshelves/Chemistry'' None (site notACoverWorld)) = Null
   \<and> fst (startTranslation notACoverWorld) \<noteq> Returned True
   \<and> list_all (\<lambda>ev. \<not> isContentFetch ev) (snd (startTranslation notACoverWorld))"
proof -
  have h: "\<not> rootHasCoverTag (site notACoverWorld)"
    by (simp add: notACoverWorld_def chemWorld_def plainCoverInfo_def)
  show ?thesis
    using h no_cover_no_content_fetch [OF h, of "''chem''" "''Bookshelves/Chemistry''"] by simp
qed

text \<open>
  \<^verbatim>\<open>getPageProperties\<close> on an answer whose properties all have contents drops the
  edit-tracking ones; on a property without \<^verbatim>\<open>contents\<close> the loop throws, and what was
  collected before it is returned unfiltered, without the properties after it.
\<close>

lemma getPageProperties_examples:
  "fst (getPageProperties
          (chemWorld \<lparr> pageProperties :=
             (\<lambda>l i. Some [Some editedbyProperty, Some overviewProperty]) \<rparr>) coverMeta)
     = [(''mindtouch.page#overview'', ''An overview'')]
   \<and> fst (getPageProperties
          (chemWorld \<lparr> pageProperties :=
             (\<lambda>l i. Some [Some editedbyProperty, Some emptyProperty, Some overviewProperty]) \<rparr>)
          coverMeta)
     = [(''mindtouch.page#editedby'', ''librebot'')]"
  by (simp add: getPageProperties_def chemWorld_def editedbyProperty_def emptyProperty_def
      overviewProperty_def isNonEmptyString_def trim_def isWhitespace_def startsWith_def)

text \<open>
  Claim C2. In a world where the write of the cover's contents to object storage answers
  with status 500, \<^verbatim>\<open>uploadLibreText\<close> writes no metadata record, and \<^verbatim>\<open>startTranslation\<close>
  goes on to submit the translation job and returns \<^verbatim>\<open>true\<close>.
\<close>

theorem failed_upload_still_submits:
  "s3PutStatus failingUploadWorld InputBucket ''chem-10/chem-10.html'' = Some 500
   \<and> startTranslation failingUploadWorld =
       (Returned True,
        [QueueDelete, SsmGet,
         PageInfoGet ''chem'' ''Bookshelves/Chemistry'', SubpagesGet ''chem'' ''10'',
         ContentGet ''chem'' ''10'', PropertiesGet ''chem'' ''10'',
         S3Put InputBucket ''chem-10/chem-10.html''
           (HtmlObject (transformContents fetchedCoverMeta ''<p>Hi</p>'')),
         TranslateStart ''chem-10'' ''es''])"
  by (simp add: startTranslation_def failingUploadWorld_def chemWorld_def chemRequest_def
      coverInfo_def plainCoverInfo_def fetchedCoverMeta_def
      deleteQueueMessage_def retrieveLibraryParameters_def getPageProperties_def
      uploadLibreText_def initiateTranslationJob_def parsePagePath_def split_def
      sectionNumberTest_def isDigit_def
      startsWith_def truthy_def Let_def)

subsection \<open>Stage B: correlation\<close>

lemma splitFrom_char:
  "splitFrom [c] acc s =
     (rev acc @ takeWhile (\<lambda>x. x \<noteq> c) s)
     # (if dropWhile (\<lambda>x. x \<noteq> c) s = [] then []
        else splitFrom [c] [] (drop 1 (dropWhile (\<lambda>x. x \<noteq> c) s)))"
  by (induction s arbitrary: acc) (auto simp: startsWith_def)

lemma dropWhile_all: "(\<forall>c \<in> set (dropWhile P s). P c) \<longleftrightarrow> (\<forall>c \<in> set s. P c)"
  by (induction s) auto

lemma trim_Nil_iff: "trim s = [] \<longleftrightarrow> (\<forall>c \<in> set s. isWhitespace c)"
  by (simp add: trim_def dropWhile_eq_Nil_conv dropWhile_all)

lemma trim_takeWhile: "trim (takeWhile P s) \<noteq> [] \<Longrightarrow> trim s \<noteq> []"
  by (auto simp: trim_Nil_iff dest: set_takeWhileD)

lemma split_char_hd: "hd (split [c] s) = takeWhile (\<lambda>x. x \<noteq> c) s"
  unfolding split_def by (subst splitFrom_char) simp

lemma split_char_length:
  "length (split [c] s) > 1 \<longleftrightarrow> dropWhile (\<lambda>x. x \<noteq> c) s \<noteq> []"
  unfolding split_def by (subst splitFrom_char) (auto simp: splitFrom_not_Nil)

lemma split_char_second:
  assumes "dropWhile (\<lambda>x. x \<noteq> c) s \<noteq> []"
  shows "split [c] s ! 1
         = takeWhile (\<lambda>x. x \<noteq> c) (drop 1 (dropWhile (\<lambda>x. x \<noteq> c) s))"
proof -
  have "split [c] s ! 1 = hd (split [c] (drop 1 (dropWhile (\<lambda>x. x \<noteq> c) s)))"
    unfolding split_def using assms
    by (subst splitFrom_char) (auto simp: hd_conv_nth splitFrom_not_Nil)
  then show ?thesis
    by (simp only: split_char_hd)
qed

text \<open>
  The check of the source on the cover identifier (the first two pieces between hyphens are
  non-blank strings) accepts exactly the well-formed identifiers.
\<close>

lemma decodeCoverID_None_iff:
  "decodeCoverID p = None
   \<longleftrightarrow> \<not> (\<exists>segment. coverSegment p = Some segment \<and> wellFormedCover segment)"
proof (cases "coverSegment p")
  case None
  then show ?thesis by (simp add: decodeCoverID_def isNonEmptyString_def)
next
  case (Some segment)
  define libPart where "libPart = takeWhile (\<lambda>c. c \<noteq> CHR ''-'') segment"
  define afterLib where "afterLib = dropWhile (\<lambda>c. c \<noteq> CHR ''-'') segment"
  define idPart where "idPart = takeWhile (\<lambda>c. c \<noteq> CHR ''-'') (drop 1 afterLib)"
  have first: "hd (split ''-'' segment) = libPart"
    unfolding libPart_def by (rule split_char_hd)
  have len: "length (split ''-'' segment) > 1 \<longleftrightarrow> afterLib \<noteq> []"
    unfolding afterLib_def by (rule split_char_length)
  have second: "afterLib \<noteq> [] \<Longrightarrow> split ''-'' segment ! 1 = idPart"
    unfolding afterLib_def idPart_def by (rule split_char_second)
  have wf: "wellFormedCover segment \<longleftrightarrow> afterLib \<noteq> [] \<and> trim libPart \<noteq> [] \<and> trim idPart \<noteq> []"
    by (simp add: wellFormedCover_def Let_def libPart_def afterLib_def idPart_def)
  have whole: "trim libPart \<noteq> [] \<Longrightarrow> trim segment \<noteq> []"
    unfolding libPart_def by (rule trim_takeWhile)
  have "decodeCoverID p = None
        \<longleftrightarrow> \<not> (trim segment \<noteq> [] \<and> trim libPart \<noteq> [] \<and> afterLib \<noteq> [] \<and> trim idPart \<noteq> [])"
  proof (cases "afterLib = []")
    case True
    then show ?thesis
      using len by (simp add: decodeCoverID_def Some Let_def isNonEmptyString_def)
  next
    case False
    then show ?thesis
      using len first second [OF False]
      by (auto simp: decodeCoverID_def Some Let_def isNonEmptyString_def)
  qed
  then show ?thesis
    using wf whole Some by auto
qed

lemma wellFormedCover_examples:
  "wellFormedCover ''chem-10'' \<and> \<not> wellFormedCover ''chem10'' \<and> \<not> wellFormedCover ''chem-''
   \<and> \<not> wellFormedCover ''-10'' \<and> \<not> wellFormedCover ''a--b'' \<and> \<not> wellFormedCover '' -10''
   \<and> \<not> wellFormedCover '' - ''"
  by (simp add: wellFormedCover_def trim_def isWhitespace_def)

lemma getFileContents_events:
  "purpose \<noteq> MetadataRecord \<Longrightarrow> list_all (\<lambda>e. \<not> isMetadataRead e) (snd (getFileContents w purpose key))"
  by (cases purpose) (auto simp: getFileContents_def Let_def split: option.splits s3GetResult.splits)

text \<open>
  Claim C7. Take an invocation for the job \<open>jobID\<close> whose details file, at the address
  \<open>uri\<close> that the job's description gives, is read and parses to \<open>manifest\<close>. When the input
  data prefix of that manifest does not decode to a well-formed cover identifier (its
  second path segment is missing, has no hyphen, or has a blank library name or page id),
  \<^verbatim>\<open>retrieveTranslationJobDetails\<close> returns \<^verbatim>\<open>null\<close>, \<^verbatim>\<open>processTranslated\<close> returns \<^verbatim>\<open>false\<close>,
  issues no read of the stored metadata record, and leaves the destination library as it
  was.
\<close>

theorem malformed_cover_no_metadata_read:
  assumes "eventJobId w = Some jobID"
    and "fst (getTranslationDetailsURI w jobID) = Some uri"
    and "fst (getFileContents w JobDetailsFile uri) = Returns fileText"
    and "parseJobDetails w fileText = Some manifest"
    and "inputDataPrefix manifest = Some dataPrefix"
    and "\<not> (\<exists>segment. coverSegment dataPrefix = Some segment \<and> wellFormedCover segment)"
  shows "fst (retrieveTranslationJobDetails w (Some uri)) = ReturnsNull
         \<and> fst (processTranslated plat depth w d) = Returned False
         \<and> list_all (\<lambda>e. \<not> isMetadataRead e) (fst (snd (processTranslated plat depth w d)))
         \<and> snd (snd (processTranslated plat depth w d)) = d"
proof -
  have dec: "decodeCoverID dataPrefix = None"
    using assms(6) by (simp add: decodeCoverID_None_iff)
  obtain ev2 where gf: "getFileContents w JobDetailsFile uri = (Returns fileText, ev2)"
    using assms(3) by (cases "getFileContents w JobDetailsFile uri") simp
  have ev2: "list_all (\<lambda>e. \<not> isMetadataRead e) ev2"
    using getFileContents_events [of JobDetailsFile w uri] gf by simp
  have details: "retrieveTranslationJobDetails w (Some uri)
                 = (ReturnsNull, if isNonEmptyString (Some uri) then ev2 else [])"
    using gf assms(4,5) dec
    by (simp add: retrieveTranslationJobDetails_def split: option.splits)
  obtain ev1 where u: "getTranslationDetailsURI w jobID = (Some uri, ev1)"
    using assms(2) by (cases "getTranslationDetailsURI w jobID") simp
  have ev1: "list_all (\<lambda>e. \<not> isMetadataRead e) ev1"
    using u by (auto simp: getTranslationDetailsURI_def split: option.splits if_splits)
  have run: "processTranslated plat depth w d
             = (Returned False,
                if isNonEmptyString (Some jobID)
                then ev1 @ (if isNonEmptyString (Some uri) then ev2 else []) else [], d)"
    using assms(1) u details by (simp add: processTranslated_def)
  show ?thesis
    using details run ev1 ev2 by simp
qed

lemma hyphenless_run:
  "eventJobId hyphenlessWorld = Some ''abc''
   \<and> fst (getTranslationDetailsURI hyphenlessWorld ''abc'') = Some hyphenlessDetailsUri
   \<and> fst (getFileContents hyphenlessWorld JobDetailsFile hyphenlessDetailsUri) = Returns ''{}''
   \<and> parseJobDetails hyphenlessWorld ''{}'' = Some hyphenlessManifest
   \<and> inputDataPrefix hyphenlessManifest = Some ''s3://polyglot-input/chem10/''
   \<and> coverSegment ''s3://polyglot-input/chem10/'' = Some ''chem10''"
  by (simp add: hyphenlessWorld_def hyphenlessManifest_def hyphenlessDetailsUri_def
      getTranslationDetailsURI_def getFileContents_def coverSegment_def split_def startsWith_def
      Let_def)

theorem malformed_cover_no_metadata_read_witness:
  "eventJobId hyphenlessWorld = Some ''abc''
   \<and> fst (getTranslationDetailsURI hyphenlessWorld ''abc'') = Some hyphenlessDetailsUri
   \<and> fst (getFileContents hyphenlessWorld JobDetailsFile hyphenlessDetailsUri) = Returns ''{}''
   \<and> parseJobDetails hyphenlessWorld ''{}'' = Some hyphenlessManifest
   \<and> inputDataPrefix hyphenlessManifest = Some ''s3://polyglot-input/chem10/''
   \<and> \<not> (\<exists>segment. coverSegment ''s3://polyglot-input/chem10/'' = Some segment
                    \<and> wellFormedCover segment)
   \<and> fst (retrieveTranslationJobDetails hyphenlessWorld (Some hyphenlessDetailsUri)) = ReturnsNull
   \<and> fst (processTranslated memoryLibrary 1 hyphenlessWorld []) = Returned False
   \<and> list_all (\<lambda>e. \<not> isMetadataRead e)
         (fst (snd (processTranslated memoryLibrary 1 hyphenlessWorld [])))
   \<and> snd (snd (processTranslated memoryLibrary 1 hyphenlessWorld [])) = []"
proof -
  note run = hyphenless_run
  have h1: "eventJobId hyphenlessWorld = Some ''abc''"
    using run by (rule conjunct1)
  have h2: "fst (getTranslationDetailsURI hyphenlessWorld ''abc'') = Some hyphenlessDetailsUri"
    using run by (elim conjE)
  have h3: "fst (getFileContents hyphenlessWorld JobDetailsFile hyphenlessDetailsUri) = Returns ''{}''"
    using run by (elim conjE)
  have h4: "parseJobDetails hyphenlessWorld ''{}'' = Some hyphenlessManifest"
    using run by (elim conjE)
  have h5: "inputDataPrefix hyphenlessManifest = Some ''s3://polyglot-input/chem10/''"
    using run by (elim conjE)
  have seg: "coverSegment ''s3://polyglot-input/chem10/'' = Some ''chem10''"
    using run by (elim conjE)
  have "\<not> wellFormedCover ''chem10''"
    by (simp add: wellFormedCover_def)
  then have h6: "\<not> (\<exists>segment. coverSegment ''s3://polyglot-input/chem10/'' = Some segment
                    \<and> wellFormedCover segment)"
    using seg by simp
  have c: "fst (retrieveTranslationJobDetails hyphenlessWorld (Some hyphenlessDetailsUri)) = ReturnsNull
    \<and> fst (processTranslated memoryLibrary 1 hyphenlessWorld []) = Returned False
    \<and> list_all (\<lambda>e. \<not> isMetadataRead e)
         (fst (snd (processTranslated memoryLibrary 1 hyphenlessWorld [])))
    \<and> snd (snd (processTranslated memoryLibrary 1 hyphenlessWorld [])) = []"
    by (rule malformed_cover_no_metadata_read
          [where w = hyphenlessWorld and jobID = "''abc''" and uri = hyphenlessDetailsUri
             and fileText = "''{}''" and manifest = hyphenlessManifest
             and dataPrefix = "''s3://polyglot-input/chem10/''"
             and plat = memoryLibrary and depth = 1 and d = "[]", OF h1 h2 h3 h4 h5 h6])
  show ?thesis
    using h1 h2 h3 h4 h5 h6 c by (intro conjI) (elim conjE | assumption)+
qed

subsection \<open>Stage B: the writer\<close>

text \<open>
  Claim C10. Every page creation of the writer carries \<^verbatim>\<open>abort=exists\<close>. On a destination
  library that honours it, saving a page whose computed path already holds a page returns
  \<^verbatim>\<open>false\<close> and leaves the library unchanged: the existing page is not overwritten and
  nothing of the page's subtree is written. In the loop over the subpages of a parent, the
  pages after such a page are saved exactly as if it had not been in the list.
\<close>

theorem existing_page_not_overwritten:
  assumes "honoursAbortExists plat pageExists"
    and "pageExists d (createPath (createPageRequest targetPath' parentPath m contents))"
  shows "createAbort (createPageRequest targetPath' parentPath m contents) = ''exists''
     \<and> saveToLibrary plat targetLib' (Some targetPath') parentPath (Page m (Some contents) sp) d
         = (False, d)
     \<and> saveEach plat targetLib' (Some targetPath') parentPath (Page m (Some contents) sp # siblings) d
         = saveEach plat targetLib' (Some targetPath') parentPath siblings d"
proof -
  let ?request = "createPageRequest targetPath' parentPath m contents"
  have flag: "createAbort ?request = ''exists''"
    by (simp add: createPageRequest_def)
  then have no: "refused (fst (createPage plat d ?request))" and same: "snd (createPage plat d ?request) = d"
    using assms by (auto simp: honoursAbortExists_def)
  have save: "saveToLibrary plat targetLib' (Some targetPath') parentPath (Page m (Some contents) sp) d
      = (False, d)"
  proof (cases "createPage plat d ?request")
    case (Pair response d1)
    then show ?thesis
      using no same by (cases response) (auto simp: refused_def)
  qed
  then show ?thesis
    using flag by simp
qed

theorem existing_page_not_overwritten_witness:
  "honoursAbortExists memoryLibrary storedAt
   \<and> storedAt occupiedLibrary
        (createPath (createPageRequest ''Bookshelves/Translated'' [] translatedCoverMeta
           ''<p>Bienvenidos</p>''))
   \<and> createAbort (createPageRequest ''Bookshelves/Translated'' [] translatedCoverMeta
        ''<p>Bienvenidos</p>'') = ''exists''
   \<and> saveToLibrary memoryLibrary (Some ''query'') (Some ''Bookshelves/Translated'') []
        (Page translatedCoverMeta (Some ''<p>Bienvenidos</p>'') (Some [])) occupiedLibrary
       = (False, occupiedLibrary)
   \<and> saveEach memoryLibrary (Some ''query'') (Some ''Bookshelves/Translated'') []
        (Page translatedCoverMeta (Some ''<p>Bienvenidos</p>'') (Some []) # [introPage])
        occupiedLibrary
       = saveEach memoryLibrary (Some ''query'') (Some ''Bookshelves/Translated'') [] [introPage]
        occupiedLibrary"
proof -
  have h1: "honoursAbortExists memoryLibrary storedAt"
    by (simp add: honoursAbortExists_def memoryLibrary_def storedAt_def refused_def)
  have h2: "storedAt occupiedLibrary
        (createPath (createPageRequest ''Bookshelves/Translated'' [] translatedCoverMeta
           ''<p>Bienvenidos</p>''))"
    by (simp add: storedAt_def createPageRequest_def assembleUrl_def newPagePath_def coverMeta_def
        emptyMeta_def isNonEmptyString_def trim_def isWhitespace_def endsWith_def startsWith_def
        replaceAll_def Let_def occupiedLibrary_def translatedCoverMeta_def)
  note c = existing_page_not_overwritten [of memoryLibrary storedAt occupiedLibrary
     "''Bookshelves/Translated''" "[]" translatedCoverMeta "''<p>Bienvenidos</p>''"
     "Some ''query''" "Some []" "[introPage]", OF h1 h2]
  show ?thesis
    by (intro conjI h1 h2 c [THEN conjunct1] c [THEN conjunct2, THEN conjunct1]
        c [THEN conjunct2, THEN conjunct2])
qed

end
